theory Spec2Isabelle
  imports Main "HOL-Library.AList"
begin

section \<open>Python values\<close>

text \<open>
  The script \<^verbatim>\<open>auth-api.py\<close> works on decoded JSON documents: the state file, the
  payload of a log line and the body of an API response. A decoded document is a value
  of \<open>json\<close>. A Python \<^verbatim>\<open>dict\<close> keeps its keys unique and in insertion order, so an
  object is an association list that is only ever changed with \<open>AList.update\<close>
  (replace in place, or append). Numbers are the integers; a \<^verbatim>\<open>str\<close> is identified with
  its UTF-8 bytes, so \<open>length\<close> is \<^verbatim>\<open>len(s.encode("utf-8"))\<close>.
\<close>

datatype json =
    JNull
  | JBool bool
  | JNum int
  | JStr string
  | JArr "json list"
  | JObj "(string \<times> json) list"

text \<open>The exceptions that the script's statements can raise.\<close>

datatype exn =
    FileNotFoundError
  | PermissionError
  | UnicodeDecodeError
  | JSONDecodeError
  | ValueError
  | TypeError
  | AttributeError
  | KeyError
  | RequestException
  | SystemExit

text \<open>
  \<open>isinstance_exn e c\<close>: an exception of class \<open>e\<close> is caught by \<^verbatim>\<open>except c\<close>.
  \<^verbatim>\<open>JSONDecodeError\<close> and \<^verbatim>\<open>UnicodeDecodeError\<close> are subclasses of \<^verbatim>\<open>ValueError\<close>.
\<close>

definition isinstance_exn :: "exn \<Rightarrow> exn \<Rightarrow> bool" where
  "isinstance_exn e c =
     (e = c \<or> (c = ValueError \<and> (e = JSONDecodeError \<or> e = UnicodeDecodeError)))"

definition caught_by :: "exn \<Rightarrow> exn list \<Rightarrow> bool" where
  "caught_by e cs = list_ex (isinstance_exn e) cs"

text \<open>\<^verbatim>\<open>needle in s\<close> on two strings: \<open>needle\<close> occurs in \<open>s\<close> as a substring.\<close>

fun str_contains :: "string \<Rightarrow> string \<Rightarrow> bool" where
  "str_contains needle [] = (needle = [])"
| "str_contains needle (c # s) =
     (take (length needle) (c # s) = needle \<or> str_contains needle s)"

text \<open>
  \<^verbatim>\<open>k in data\<close> for a string \<open>k\<close> and a decoded document: key membership on a dict,
  element membership on a list, substring on a string, and \<^verbatim>\<open>TypeError\<close> on
  \<^verbatim>\<open>None\<close>, a bool or a number (not iterable).
\<close>

fun py_in :: "string \<Rightarrow> json \<Rightarrow> exn + bool" where
  "py_in k (JObj kvs) = Inr (k \<in> set (map fst kvs))"
| "py_in k (JArr xs) = Inr (JStr k \<in> set xs)"
| "py_in k (JStr s) = Inr (str_contains k s)"
| "py_in k JNull = Inl TypeError"
| "py_in k (JBool b) = Inl TypeError"
| "py_in k (JNum n) = Inl TypeError"

section \<open>State store: \<^verbatim>\<open>load_state\<close>\<close>

text \<open>
  What \<^verbatim>\<open>open(path, "r")\<close> followed by \<^verbatim>\<open>json.load(f)\<close> meets: no file, a file that
  cannot be opened for reading, bytes that are not text, text that is not JSON, or a
  JSON document.
\<close>

datatype state_file =
    Absent
  | Unreadable
  | NotText
  | Malformed
  | Parsed json

fun read_json :: "state_file \<Rightarrow> exn + json" where
  "read_json Absent = Inl FileNotFoundError"
| "read_json Unreadable = Inl PermissionError"
| "read_json NotText = Inl UnicodeDecodeError"
| "read_json Malformed = Inl JSONDecodeError"
| "read_json (Parsed data) = Inr data"

definition default_state :: json where
  "default_state = JObj [(''last_position'', JNum 0), (''rules'', JObj [])]"

text \<open>
  The body of the \<^verbatim>\<open>try\<close> block of \<^verbatim>\<open>load_state\<close>: \<open>Inr (Some data)\<close> is
  \<^verbatim>\<open>return data\<close>, \<open>Inr None\<close> is falling out of the block. The \<^verbatim>\<open>and\<close> evaluates
  its second operand only when the first is true.
\<close>

definition load_state_try :: "state_file \<Rightarrow> exn + json option" where
  "load_state_try sf =
     (case read_json sf of
        Inl e \<Rightarrow> Inl e
      | Inr data \<Rightarrow>
          (case py_in ''last_position'' data of
             Inl e \<Rightarrow> Inl e
           | Inr has_position \<Rightarrow>
               if \<not> has_position then Inr None
               else
                 (case py_in ''rules'' data of
                    Inl e \<Rightarrow> Inl e
                  | Inr has_rules \<Rightarrow> if has_rules then Inr (Some data) else Inr None)))"

definition load_state :: "state_file \<Rightarrow> exn + json" where
  "load_state sf =
     (case load_state_try sf of
        Inl e \<Rightarrow>
          if caught_by e [FileNotFoundError, JSONDecodeError] then Inr default_state
          else Inl e
      | Inr (Some data) \<Rightarrow> Inr data
      | Inr None \<Rightarrow> Inr default_state)"

section \<open>State store: \<^verbatim>\<open>save_state\<close>\<close>

text \<open>
  The files that \<^verbatim>\<open>save_state\<close> touches, as a map from path to content, and the
  three operations it performs on them: \<^verbatim>\<open>open(tmp_path, "w")\<close> creates the file or
  truncates it, each write that \<^verbatim>\<open>json.dump\<close> issues appends a piece of the
  serialised state, and \<^verbatim>\<open>os.replace(tmp_path, path)\<close> renames in one step.
\<close>

type_synonym files = "string \<Rightarrow> string option"

datatype file_op =
    OpenTrunc string
  | Append string string
  | Replace string string

fun file_step :: "file_op \<Rightarrow> files \<Rightarrow> files" where
  "file_step (OpenTrunc p) fs = fs(p \<mapsto> [])"
| "file_step (Append p piece) fs =
     fs(p \<mapsto> (case fs p of None \<Rightarrow> piece | Some c \<Rightarrow> c @ piece))"
| "file_step (Replace src dst) fs = (fs(dst := fs src))(src := None)"

definition tmp_path :: "string \<Rightarrow> string" where
  "tmp_path path = path @ ''.tmp''"

text \<open>
  \<open>pieces\<close> are the writes of \<^verbatim>\<open>json.dump(state, f, indent=2)\<close>, in order; their
  concatenation is the serialised state.
\<close>

definition save_state_ops :: "string \<Rightarrow> string list \<Rightarrow> file_op list" where
  "save_state_ops path pieces =
     OpenTrunc (tmp_path path) # map (Append (tmp_path path)) pieces
       @ [Replace (tmp_path path) path]"

text \<open>The files after the first \<open>n\<close> operations: a crash after \<open>n\<close> steps.\<close>

definition save_state_upto :: "nat \<Rightarrow> string \<Rightarrow> string list \<Rightarrow> files \<Rightarrow> files" where
  "save_state_upto n path pieces fs = fold file_step (take n (save_state_ops path pieces)) fs"

definition save_state :: "string \<Rightarrow> string list \<Rightarrow> files \<Rightarrow> files" where
  "save_state path pieces fs = fold file_step (save_state_ops path pieces) fs"

text \<open>The directory part of a path: everything up to and including the last slash.\<close>

definition dirname :: "string \<Rightarrow> string" where
  "dirname p = rev (dropWhile (\<lambda>c. c \<noteq> CHR ''/'') (rev p))"

section \<open>Event extractor: \<^verbatim>\<open>extract_login_ip\<close>\<close>

definition marker :: string where
  "marker = ''Exchange session: Badger sent ''"

text \<open>
  \<^verbatim>\<open>s.index(c)\<close> and \<^verbatim>\<open>s.rindex(c)\<close> for a one-character needle; \<open>None\<close> stands for
  the \<^verbatim>\<open>ValueError\<close> they raise when \<open>c\<close> does not occur.
\<close>

fun str_index :: "char \<Rightarrow> string \<Rightarrow> nat option" where
  "str_index c [] = None"
| "str_index c (x # s) = (if x = c then Some 0 else map_option Suc (str_index c s))"

definition str_rindex :: "char \<Rightarrow> string \<Rightarrow> nat option" where
  "str_rindex c s = map_option (\<lambda>i. length s - 1 - i) (str_index c (rev s))"

text \<open>\<^verbatim>\<open>s[i:j]\<close> for indices that are not negative.\<close>

definition py_slice :: "string \<Rightarrow> nat \<Rightarrow> nat \<Rightarrow> string" where
  "py_slice s i j = take (j - i) (drop i s)"

text \<open>
  \<^verbatim>\<open>d.get(k, default)\<close>: a method of dicts only, so \<^verbatim>\<open>AttributeError\<close> on every
  other value.
\<close>

fun dict_get :: "json \<Rightarrow> string \<Rightarrow> json \<Rightarrow> exn + json" where
  "dict_get (JObj kvs) k d = Inr (case map_of kvs k of None \<Rightarrow> d | Some v \<Rightarrow> v)"
| "dict_get JNull k d = Inl AttributeError"
| "dict_get (JBool b) k d = Inl AttributeError"
| "dict_get (JNum n) k d = Inl AttributeError"
| "dict_get (JStr s) k d = Inl AttributeError"
| "dict_get (JArr xs) k d = Inl AttributeError"

text \<open>\<^verbatim>\<open>v.split(":")[0]\<close>: a method of strings only.\<close>

fun split_colon_first :: "json \<Rightarrow> exn + string" where
  "split_colon_first (JStr s) = Inr (takeWhile (\<lambda>c. c \<noteq> CHR '':'') s)"
| "split_colon_first JNull = Inl AttributeError"
| "split_colon_first (JBool b) = Inl AttributeError"
| "split_colon_first (JNum n) = Inl AttributeError"
| "split_colon_first (JArr xs) = Inl AttributeError"
| "split_colon_first (JObj kvs) = Inl AttributeError"

text \<open>
  The \<^verbatim>\<open>try\<close> block of \<^verbatim>\<open>extract_login_ip\<close>. \<open>loads\<close> is \<^verbatim>\<open>json.loads\<close>, with
  \<open>None\<close> for \<^verbatim>\<open>JSONDecodeError\<close>; it is library code and a parameter here.
\<close>

definition extract_login_ip_try :: "(string \<Rightarrow> json option) \<Rightarrow> string \<Rightarrow> exn + string option" where
  "extract_login_ip_try loads line =
     (case str_index (CHR ''{'') line of
        None \<Rightarrow> Inl ValueError
      | Some i \<Rightarrow>
     (case str_rindex (CHR ''}'') line of
        None \<Rightarrow> Inl ValueError
      | Some j \<Rightarrow>
     (case loads (py_slice line i (j + 1)) of
        None \<Rightarrow> Inl JSONDecodeError
      | Some payload \<Rightarrow>
     (case dict_get payload ''requestIp'' (JStr []) of
        Inl e \<Rightarrow> Inl e
      | Inr ip_port \<Rightarrow>
     (case split_colon_first ip_port of
        Inl e \<Rightarrow> Inl e
      | Inr ip \<Rightarrow>
          if ip \<noteq> [] \<and> str_contains ''.'' ip then Inr (Some ip) else Inr None)))))"

definition extract_login_ip :: "(string \<Rightarrow> json option) \<Rightarrow> string \<Rightarrow> exn + string option" where
  "extract_login_ip loads line =
     (if \<not> str_contains marker line then Inr None
      else
        (case extract_login_ip_try loads line of
           Inl e \<Rightarrow> if caught_by e [ValueError, JSONDecodeError] then Inr None else Inl e
         | Inr r \<Rightarrow> Inr r))"

section \<open>Access-control client: \<^verbatim>\<open>create_rule\<close> and \<^verbatim>\<open>delete_rule\<close>\<close>

text \<open>
  What a call of \<^verbatim>\<open>requests.put\<close> or \<^verbatim>\<open>requests.delete\<close> gives: an exception of
  the library (timeout, connection error), or a response with its status code and the
  result of \<^verbatim>\<open>resp.json()\<close>, \<open>None\<close> when the body is not JSON.
\<close>

datatype http_result =
    TransportError
  | Response int "json option"

text \<open>Python's truth value of a decoded document.\<close>

fun truthy :: "json \<Rightarrow> bool" where
  "truthy JNull = False"
| "truthy (JBool b) = b"
| "truthy (JNum n) = (n \<noteq> 0)"
| "truthy (JStr s) = (s \<noteq> [])"
| "truthy (JArr xs) = (xs \<noteq> [])"
| "truthy (JObj kvs) = (kvs \<noteq> [])"

text \<open>
  The \<^verbatim>\<open>try\<close> block of \<^verbatim>\<open>create_rule\<close>, from the response on. \<open>str_of\<close> is Python's
  \<^verbatim>\<open>str\<close> on the identifier.
\<close>

definition create_rule_try :: "(json \<Rightarrow> string) \<Rightarrow> http_result \<Rightarrow> exn + string option" where
  "create_rule_try str_of result =
     (case result of
        TransportError \<Rightarrow> Inl RequestException
      | Response status_code body \<Rightarrow>
          if status_code = 200 \<or> status_code = 201 then
            (case body of
               None \<Rightarrow> Inl JSONDecodeError
             | Some data \<Rightarrow>
            (case dict_get data ''data'' (JObj []) of
               Inl e \<Rightarrow> Inl e
             | Inr inner \<Rightarrow>
            (case dict_get inner ''ruleId'' JNull of
               Inl e \<Rightarrow> Inl e
             | Inr rule_id \<Rightarrow>
            (case (if \<not> truthy rule_id then dict_get data ''id'' JNull else Inr rule_id) of
               Inl e \<Rightarrow> Inl e
             | Inr rule_id' \<Rightarrow>
                 if truthy rule_id' then Inr (Some (str_of rule_id')) else Inr None))))
          else Inr None)"

text \<open>\<^verbatim>\<open>except Exception\<close> turns every exception of the block into \<^verbatim>\<open>None\<close>.\<close>

definition create_rule :: "(json \<Rightarrow> string) \<Rightarrow> http_result \<Rightarrow> string option" where
  "create_rule str_of result =
     (case create_rule_try str_of result of Inl e \<Rightarrow> None | Inr r \<Rightarrow> r)"

text \<open>\<^verbatim>\<open>delete_rule\<close> has no \<^verbatim>\<open>try\<close>: an exception of the library propagates.\<close>

definition delete_rule :: "http_result \<Rightarrow> exn + bool" where
  "delete_rule result =
     (case result of
        TransportError \<Rightarrow> Inl RequestException
      | Response status_code body \<Rightarrow> Inr (status_code = 200 \<or> status_code = 204))"

section \<open>Log scanner: reading lines\<close>

text \<open>
  The log is opened in text mode with the default \<^verbatim>\<open>newline=None\<close>: a line ends at
  \<^verbatim>\<open>\n\<close>, at \<^verbatim>\<open>\r\n\<close> or at a lone \<^verbatim>\<open>\r\<close>, and each of the three reaches the
  program as \<^verbatim>\<open>\n\<close>. \<open>read_lines cur bytes\<close> is the list that \<^verbatim>\<open>for line in f\<close>
  runs through, \<open>cur\<close> being the part of the current line already read. The last
  line has no terminator when the file does not end with one. The spec takes the log
  to be UTF-8 text, so a line is identified with its bytes.
\<close>

definition LF :: char where
  "LF = CHR 0x0A"

definition CR :: char where
  "CR = CHR 0x0D"

fun read_lines :: "string \<Rightarrow> string \<Rightarrow> string list" where
  "read_lines cur [] = (if cur = [] then [] else [cur])"
| "read_lines cur [c] = (if c = CR \<or> c = LF then [cur @ [LF]] else [cur @ [c]])"
| "read_lines cur (c # d # bytes) =
     (if c = CR \<and> d = LF then (cur @ [LF]) # read_lines [] bytes
      else if c = CR \<or> c = LF then (cur @ [LF]) # read_lines [] (d # bytes)
      else read_lines (cur @ [c]) (d # bytes))"

section \<open>Rule lifecycle manager: \<^verbatim>\<open>main\<close>\<close>

text \<open>
  A call to the access-control service, and the history of the calls of one run with
  what each gave.
\<close>

datatype request =
    PutRule string
  | DeleteRule json

type_synonym event = "request \<times> http_result"

text \<open>
  What one run of the script meets outside itself: the state file; the size that
  \<^verbatim>\<open>os.path.getsize\<close> reports for the log and the bytes of the log when it is opened
  for scanning (\<open>None\<close>: no such file); the service, whose answer to a call may depend
  on the calls before it; and the clock, \<^verbatim>\<open>datetime.now(timezone.utc)\<close> in
  microseconds, read after the calls made so far.
\<close>

record env =
  state_file :: state_file
  log_size :: "nat option"
  log_bytes :: "string option"
  api :: "event list \<Rightarrow> request \<Rightarrow> http_result"
  clock :: "event list \<Rightarrow> int"

text \<open>
  \<^verbatim>\<open>datetime.fromisoformat\<close> gives a datetime with an offset, which denotes an instant,
  or one without.
\<close>

datatype datetime =
    Naive
  | Aware int

text \<open>
  The library functions that the script calls and that are parameters of its model:
  \<^verbatim>\<open>json.loads\<close>, \<^verbatim>\<open>str\<close>, \<^verbatim>\<open>datetime.fromisoformat\<close> (\<open>None\<close>: \<^verbatim>\<open>ValueError\<close>)
  and \<^verbatim>\<open>datetime.isoformat\<close> of an instant in UTC.
\<close>

record lib =
  json_loads :: "string \<Rightarrow> json option"
  py_str :: "json \<Rightarrow> string"
  fromisoformat :: "string \<Rightarrow> datetime option"
  isoformat :: "int \<Rightarrow> string"

definition TTL_MINUTES :: int where
  "TTL_MINUTES = 360"

text \<open>\<^verbatim>\<open>timedelta(minutes=m)\<close> in microseconds.\<close>

definition timedelta_minutes :: "int \<Rightarrow> int" where
  "timedelta_minutes m = m * 60000000"

text \<open>A loop over a list whose body may raise: the first exception ends it.\<close>

fun for_each :: "('a \<Rightarrow> 's \<Rightarrow> exn + 's) \<Rightarrow> 'a list \<Rightarrow> 's \<Rightarrow> exn + 's" where
  "for_each body [] s = Inr s"
| "for_each body (x # xs) s =
     (case body x s of Inl e \<Rightarrow> Inl e | Inr s' \<Rightarrow> for_each body xs s')"

text \<open>\<^verbatim>\<open>v[k]\<close> for a string \<open>k\<close>.\<close>

fun subscript :: "json \<Rightarrow> string \<Rightarrow> exn + json" where
  "subscript (JObj kvs) k = (case map_of kvs k of None \<Rightarrow> Inl KeyError | Some v \<Rightarrow> Inr v)"
| "subscript JNull k = Inl TypeError"
| "subscript (JBool b) k = Inl TypeError"
| "subscript (JNum n) k = Inl TypeError"
| "subscript (JStr s) k = Inl TypeError"
| "subscript (JArr xs) k = Inl TypeError"

text \<open>\<^verbatim>\<open>v[k] = x\<close> for a string \<open>k\<close>.\<close>

fun set_item :: "json \<Rightarrow> string \<Rightarrow> json \<Rightarrow> exn + json" where
  "set_item (JObj kvs) k x = Inr (JObj (AList.update k x kvs))"
| "set_item JNull k x = Inl TypeError"
| "set_item (JBool b) k x = Inl TypeError"
| "set_item (JNum n) k x = Inl TypeError"
| "set_item (JStr s) k x = Inl TypeError"
| "set_item (JArr xs) k x = Inl TypeError"

text \<open>\<^verbatim>\<open>v.items()\<close>.\<close>

fun dict_items :: "json \<Rightarrow> exn + (string \<times> json) list" where
  "dict_items (JObj kvs) = Inr kvs"
| "dict_items JNull = Inl AttributeError"
| "dict_items (JBool b) = Inl AttributeError"
| "dict_items (JNum n) = Inl AttributeError"
| "dict_items (JStr s) = Inl AttributeError"
| "dict_items (JArr xs) = Inl AttributeError"

text \<open>
  The value of a document where Python wants a number (\<^verbatim>\<open>bool\<close> is a subclass of
  \<^verbatim>\<open>int\<close>): in \<^verbatim>\<open>current_size < last_position\<close> and in \<^verbatim>\<open>f.seek(last_position)\<close>.
\<close>

fun as_number :: "json \<Rightarrow> exn + int" where
  "as_number (JNum n) = Inr n"
| "as_number (JBool b) = Inr (if b then 1 else 0)"
| "as_number JNull = Inl TypeError"
| "as_number (JStr s) = Inl TypeError"
| "as_number (JArr xs) = Inl TypeError"
| "as_number (JObj kvs) = Inl TypeError"

text \<open>\<^verbatim>\<open>datetime.fromisoformat(v)\<close>.\<close>

fun parse_datetime :: "lib \<Rightarrow> json \<Rightarrow> exn + datetime" where
  "parse_datetime l (JStr s) =
     (case fromisoformat l s of None \<Rightarrow> Inl ValueError | Some d \<Rightarrow> Inr d)"
| "parse_datetime l JNull = Inl TypeError"
| "parse_datetime l (JBool b) = Inl TypeError"
| "parse_datetime l (JNum n) = Inl TypeError"
| "parse_datetime l (JArr xs) = Inl TypeError"
| "parse_datetime l (JObj kvs) = Inl TypeError"

text \<open>\<^verbatim>\<open>now >= expires_at\<close>, \<open>now\<close> having an offset.\<close>

fun now_ge :: "int \<Rightarrow> datetime \<Rightarrow> exn + bool" where
  "now_ge now (Aware t) = Inr (now \<ge> t)"
| "now_ge now Naive = Inl TypeError"

text \<open>
  The body of the pruning loop, on one item of \<^verbatim>\<open>active_rules.items()\<close>. The loop
  state is the history of calls and \<^verbatim>\<open>updated_rules\<close>.
\<close>

definition prune_step ::
  "lib \<Rightarrow> env \<Rightarrow> int \<Rightarrow> string \<times> json \<Rightarrow> event list \<times> (string \<times> json) list
     \<Rightarrow> exn + event list \<times> (string \<times> json) list" where
  "prune_step l e now item s =
     (case item of (ip, info) \<Rightarrow>
      case s of (tr, updated_rules) \<Rightarrow>
     (case subscript info ''expires_at'' of
        Inl x \<Rightarrow> Inl x
      | Inr v \<Rightarrow>
     (case parse_datetime l v of
        Inl x \<Rightarrow> Inl x
      | Inr expires_at \<Rightarrow>
     (case subscript info ''rule_id'' of
        Inl x \<Rightarrow> Inl x
      | Inr rule_id \<Rightarrow>
     (case now_ge now expires_at of
        Inl x \<Rightarrow> Inl x
      | Inr expired \<Rightarrow>
          if expired then
            (let result = api e tr (DeleteRule rule_id);
                 tr' = tr @ [(DeleteRule rule_id, result)]
             in case delete_rule result of
                  Inl x \<Rightarrow> Inl x
                | Inr success \<Rightarrow>
                    if \<not> success then Inr (tr', AList.update ip info updated_rules)
                    else Inr (tr', updated_rules))
          else Inr (tr, AList.update ip info updated_rules))))))"

definition prune ::
  "lib \<Rightarrow> env \<Rightarrow> int \<Rightarrow> (string \<times> json) list \<Rightarrow> event list \<times> (string \<times> json) list
     \<Rightarrow> exn + event list \<times> (string \<times> json) list" where
  "prune l e now items s = for_each (prune_step l e now) items s"

text \<open>
  The body of the scanning loop, on one line. The loop state is the history of calls,
  \<^verbatim>\<open>new_position\<close> and \<^verbatim>\<open>active_rules\<close>.
\<close>

definition new_rule :: "string \<Rightarrow> string \<Rightarrow> json" where
  "new_rule rule_id exp_time = JObj [(''rule_id'', JStr rule_id), (''expires_at'', JStr exp_time)]"

definition scan_step ::
  "lib \<Rightarrow> env \<Rightarrow> string \<Rightarrow> event list \<times> int \<times> (string \<times> json) list
     \<Rightarrow> exn + event list \<times> int \<times> (string \<times> json) list" where
  "scan_step l e line s =
     (case s of (tr, new_position, active_rules) \<Rightarrow>
      let new_position' = new_position + int (length line)
      in case extract_login_ip (json_loads l) line of
           Inl x \<Rightarrow> Inl x
         | Inr None \<Rightarrow> Inr (tr, new_position', active_rules)
         | Inr (Some ip) \<Rightarrow>
             if ip = [] then Inr (tr, new_position', active_rules)
             else if ip \<in> fst ` set active_rules then Inr (tr, new_position', active_rules)
             else
               (let result = api e tr (PutRule ip);
                    tr' = tr @ [(PutRule ip, result)]
                in case create_rule (py_str l) result of
                     None \<Rightarrow> Inr (tr', new_position', active_rules)
                   | Some rule_id \<Rightarrow>
                       if rule_id = [] then Inr (tr', new_position', active_rules)
                       else
                         (let exp_time = isoformat l (clock e tr' + timedelta_minutes TTL_MINUTES)
                          in Inr (tr', new_position',
                                  AList.update ip (new_rule rule_id exp_time) active_rules))))"

definition scan ::
  "lib \<Rightarrow> env \<Rightarrow> string list \<Rightarrow> event list \<times> int \<times> (string \<times> json) list
     \<Rightarrow> exn + event list \<times> int \<times> (string \<times> json) list" where
  "scan l e lines s = for_each (scan_step l e) lines s"

text \<open>
  \<^verbatim>\<open>main\<close>, in the three parts that its comments mark. The first part loads the
  state, reads the clock and checks for rotation; it gives the state (with
  \<^verbatim>\<open>last_position\<close> reset if the log was rotated), the offset to start from and the
  loaded rules. \<^verbatim>\<open>sys.exit(1)\<close> is the exception \<^verbatim>\<open>SystemExit\<close>.
\<close>

definition main_load :: "env \<Rightarrow> exn + json \<times> json \<times> json" where
  "main_load e =
     (case load_state (state_file e) of
        Inl x \<Rightarrow> Inl x
      | Inr state \<Rightarrow>
     (case dict_get state ''last_position'' (JNum 0) of
        Inl x \<Rightarrow> Inl x
      | Inr saved_position \<Rightarrow>
     (case dict_get state ''rules'' (JObj []) of
        Inl x \<Rightarrow> Inl x
      | Inr active_rules \<Rightarrow>
     (case log_size e of
        None \<Rightarrow> Inl SystemExit
      | Some current_size \<Rightarrow>
     (case as_number saved_position of
        Inl x \<Rightarrow> Inl x
      | Inr saved_offset \<Rightarrow>
          if int current_size < saved_offset then
            (case set_item state ''last_position'' (JNum 0) of
               Inl x \<Rightarrow> Inl x
             | Inr state' \<Rightarrow> Inr (state', JNum 0, active_rules))
          else Inr (state, saved_position, active_rules))))))"

text \<open>
  The second part prunes the expired rules, with \<open>now\<close> the clock as read at the start
  of the run. It adds the history of its calls and the pruned rule set.
\<close>

definition main_prune ::
  "lib \<Rightarrow> env \<Rightarrow> exn + json \<times> json \<times> event list \<times> (string \<times> json) list" where
  "main_prune l e =
     (case main_load e of
        Inl x \<Rightarrow> Inl x
      | Inr (state, last_position, active_rules) \<Rightarrow>
     (case dict_items active_rules of
        Inl x \<Rightarrow> Inl x
      | Inr items \<Rightarrow>
     (case prune l e (clock e []) items ([], []) of
        Inl x \<Rightarrow> Inl x
      | Inr (tr, pruned) \<Rightarrow> Inr (state, last_position, tr, pruned))))"

text \<open>
  The third part opens the log, seeks, scans the lines and hands the new state to
  \<^verbatim>\<open>save_state\<close>. \<^verbatim>\<open>f.seek\<close> raises \<^verbatim>\<open>ValueError\<close> on a negative position. When the
  loop reads no line, \<^verbatim>\<open>new_position\<close> is still the object \<^verbatim>\<open>last_position\<close>.
\<close>

definition main_scan ::
  "lib \<Rightarrow> env \<Rightarrow> json \<times> json \<times> event list \<times> (string \<times> json) list
     \<Rightarrow> exn + event list \<times> json" where
  "main_scan l e r =
     (case r of (state, last_position, tr, pruned) \<Rightarrow>
     (case log_bytes e of
        None \<Rightarrow> Inl SystemExit
      | Some bytes \<Rightarrow>
     (case as_number last_position of
        Inl x \<Rightarrow> Inl x
      | Inr start \<Rightarrow>
          if start < 0 then Inl ValueError
          else
     (let lines = read_lines [] (drop (nat start) bytes) in
      case scan l e lines (tr, start, pruned) of
        Inl x \<Rightarrow> Inl x
      | Inr (tr', new_position, active_rules) \<Rightarrow>
     (case set_item state ''last_position''
             (if lines = [] then last_position else JNum new_position) of
        Inl x \<Rightarrow> Inl x
      | Inr state' \<Rightarrow>
     (case set_item state' ''rules'' (JObj active_rules) of
        Inl x \<Rightarrow> Inl x
      | Inr saved \<Rightarrow> Inr (tr', saved)))))))"

text \<open>
  The result of \<^verbatim>\<open>main\<close> is the history of the calls to the service and the state
  that is saved.
\<close>

definition main :: "lib \<Rightarrow> env \<Rightarrow> exn + event list \<times> json" where
  "main l e = (case main_prune l e of Inl x \<Rightarrow> Inl x | Inr r \<Rightarrow> main_scan l e r)"

text \<open>The two fields of a saved state.\<close>

definition saved_rules :: "json \<Rightarrow> (string \<times> json) list" where
  "saved_rules saved =
     (case subscript saved ''rules'' of Inr (JObj rules) \<Rightarrow> rules | _ \<Rightarrow> [])"

definition saved_offset :: "json \<Rightarrow> json" where
  "saved_offset saved = (case subscript saved ''last_position'' of Inr v \<Rightarrow> v | _ \<Rightarrow> JNull)"

section \<open>Observing the calls of a run\<close>

text \<open>\<open>put_for ip ev\<close>: the call \<open>ev\<close> is a create-rule call for \<open>ip\<close>.\<close>

definition put_for :: "string \<Rightarrow> event \<Rightarrow> bool" where
  "put_for ip ev = (fst ev = PutRule ip)"

text \<open>
  \<open>created l result\<close>: the create-rule call that got \<open>result\<close> succeeded, that is,
  \<^verbatim>\<open>create_rule\<close> returned an identifier that \<^verbatim>\<open>if rule_id:\<close> accepts.
\<close>

definition created :: "lib \<Rightarrow> http_result \<Rightarrow> bool" where
  "created l result =
     (case create_rule (py_str l) result of None \<Rightarrow> False | Some rule_id \<Rightarrow> rule_id \<noteq> [])"

text \<open>
  \<open>creates_once l ip evs\<close>: in the calls \<open>evs\<close>, a successful create-rule call for \<open>ip\<close>
  is followed by no further create-rule call for \<open>ip\<close>.
\<close>

fun creates_once :: "lib \<Rightarrow> string \<Rightarrow> event list \<Rightarrow> bool" where
  "creates_once l ip [] = True"
| "creates_once l ip (ev # evs) =
     ((put_for ip ev \<and> created l (snd ev) \<longrightarrow> \<not> list_ex (put_for ip) evs)
      \<and> creates_once l ip evs)"

text \<open>\<open>is_delete ev\<close>: the call \<open>ev\<close> is a delete-rule call.\<close>

definition is_delete :: "event \<Rightarrow> bool" where
  "is_delete ev = (case fst ev of DeleteRule rule_id \<Rightarrow> True | PutRule ip \<Rightarrow> False)"

text \<open>
  The expiry of a rule record as the pruning loop reads it:
  \<^verbatim>\<open>datetime.fromisoformat(info["expires_at"])\<close>.
\<close>

definition expiry_of :: "lib \<Rightarrow> json \<Rightarrow> exn + datetime" where
  "expiry_of l info =
     (case subscript info ''expires_at'' of Inl x \<Rightarrow> Inl x | Inr v \<Rightarrow> parse_datetime l v)"

section \<open>The two response shapes, as the amended claim C9 words them\<close>

text \<open>
  The identifier of a decoded response body: the member \<^verbatim>\<open>ruleId\<close> of the member
  \<^verbatim>\<open>data\<close> when that is there and true as a Python value, otherwise the top-level
  member \<^verbatim>\<open>id\<close> when that is there and true.
\<close>

definition top_level_id :: "(string \<times> json) list \<Rightarrow> json option" where
  "top_level_id kvs =
     (case map_of kvs ''id'' of
        None \<Rightarrow> None
      | Some v \<Rightarrow> if truthy v then Some v else None)"

definition nested_rule_id :: "(string \<times> json) list \<Rightarrow> json option" where
  "nested_rule_id kvs =
     (case map_of kvs ''data'' of
        Some (JObj inner) \<Rightarrow>
          (case map_of inner ''ruleId'' of
             None \<Rightarrow> None
           | Some v \<Rightarrow> if truthy v then Some v else None)
      | _ \<Rightarrow> None)"

definition identifier_of :: "(string \<times> json) list \<Rightarrow> json option" where
  "identifier_of kvs =
     (case nested_rule_id kvs of
        Some v \<Rightarrow> Some v
      | None \<Rightarrow> top_level_id kvs)"

text \<open>
  The bodies that the amended claim speaks of: the member \<^verbatim>\<open>data\<close> is not there, or
  it is an object.
\<close>

definition data_absent_or_object :: "(string \<times> json) list \<Rightarrow> bool" where
  "data_absent_or_object kvs =
     (case map_of kvs ''data'' of
        None \<Rightarrow> True
      | Some (JObj inner) \<Rightarrow> True
      | Some _ \<Rightarrow> False)"

section \<open>Sample inputs\<close>

text \<open>
  A log line of a login from \<^verbatim>\<open>203.0.113.5\<close>, and a log line whose \<^verbatim>\<open>requestIp\<close> is
  the number 1.
\<close>

definition dq :: char where
  "dq = CHR 0x22"

definition login_doc :: string where
  "login_doc = ''{'' @ [dq] @ ''requestIp'' @ [dq] @ '': '' @ [dq] @ ''203.0.113.5:443'' @ [dq] @ ''}''"

definition login_line :: string where
  "login_line = marker @ login_doc @ [LF]"

definition number_doc :: string where
  "number_doc = ''{'' @ [dq] @ ''requestIp'' @ [dq] @ '': 1}''"

definition number_line :: string where
  "number_line = marker @ number_doc @ [LF]"

text \<open>
  The library functions at the arguments that the examples use, as Python computes
  them there: \<^verbatim>\<open>json.loads\<close> on the two documents above, \<^verbatim>\<open>str\<close> on strings,
  and the ISO form of four instants in microseconds since the epoch. The entries for
  other arguments are not used.
\<close>

definition sample_lib :: lib where
  "sample_lib =
     \<lparr> json_loads = (\<lambda>s.
         if s = login_doc then Some (JObj [(''requestIp'', JStr ''203.0.113.5:443'')])
         else if s = number_doc then Some (JObj [(''requestIp'', JNum 1)])
         else None),
       py_str = (\<lambda>v. case v of JStr s \<Rightarrow> s | _ \<Rightarrow> []),
       fromisoformat = (\<lambda>s.
         if s = ''2023-12-31T23:00:00+00:00'' then Some (Aware 1704063600000000)
         else if s = ''2024-01-01T06:00:00+00:00'' then Some (Aware 1704088800000000)
         else if s = ''2024-01-01T06:00:02+00:00'' then Some (Aware 1704088802000000)
         else None),
       isoformat = (\<lambda>t.
         if t = 1704063600000000 then ''2023-12-31T23:00:00+00:00''
         else if t = 1704088800000000 then ''2024-01-01T06:00:00+00:00''
         else if t = 1704088802000000 then ''2024-01-01T06:00:02+00:00''
         else if t = 1704088804000000 then ''2024-01-01T06:00:04+00:00''
         else []) \<rparr>"

text \<open>
  A run's surroundings for the examples: the log stays as it is during the run, and
  the clock starts at 2024-01-01T00:00:00 UTC and moves on by two seconds with every
  call to the service.
\<close>

definition sample_env :: "json \<Rightarrow> string \<Rightarrow> (event list \<Rightarrow> request \<Rightarrow> http_result) \<Rightarrow> env" where
  "sample_env state bytes service =
     \<lparr> state_file = Parsed state,
       log_size = Some (length bytes),
       log_bytes = Some bytes,
       api = service,
       clock = (\<lambda>tr. 1704067200000000 + 2000000 * int (length tr)) \<rparr>"

text \<open>A service that refuses every call, and one that accepts every call.\<close>

definition refuse_all :: "event list \<Rightarrow> request \<Rightarrow> http_result" where
  "refuse_all tr req = Response 500 None"

definition accept_all :: "event list \<Rightarrow> request \<Rightarrow> http_result" where
  "accept_all tr req =
     (case req of
        PutRule ip \<Rightarrow> Response 201 (Some (JObj [(''data'', JObj [(''ruleId'', JStr ''r2'')])]))
      | DeleteRule rule_id \<Rightarrow> Response 200 None)"

text \<open>A service that is not reached: every call ends in a timeout.\<close>

definition time_out :: "event list \<Rightarrow> request \<Rightarrow> http_result" where
  "time_out tr req = TransportError"

definition sample_ip :: string where
  "sample_ip = ''203.0.113.5''"

definition created_response :: http_result where
  "created_response = Response 201 (Some (JObj [(''data'', JObj [(''ruleId'', JStr ''r2'')])]))"

text \<open>
  A state file with an offset and rules; a rule that expired an hour before the
  sample clock starts and one that expires six hours after; a log of one line that
  ends in \<^verbatim>\<open>\r\n\<close>.
\<close>

definition state_with :: "int \<Rightarrow> (string \<times> json) list \<Rightarrow> json" where
  "state_with offset rules = JObj [(''last_position'', JNum offset), (''rules'', JObj rules)]"

definition expired_rule :: json where
  "expired_rule = new_rule ''r1'' ''2023-12-31T23:00:00+00:00''"

definition live_rule :: json where
  "live_rule = new_rule ''r1'' ''2024-01-01T06:00:00+00:00''"

definition crlf_log :: string where
  "crlf_log = [CHR ''x'', CR, LF]"

section \<open>Properties of the state store\<close>

text \<open>
  C6, as stated, fails: a state file that cannot be opened for reading makes
  \<^verbatim>\<open>load_state\<close> raise \<^verbatim>\<open>PermissionError\<close>, and a state file holding the JSON
  document \<^verbatim>\<open>0\<close> (which parses, without the two fields) makes it raise
  \<^verbatim>\<open>TypeError\<close>; neither is in the \<^verbatim>\<open>except\<close> clause, so no default state is
  returned.
\<close>

theorem load_state_not_fail_open:
  "load_state Unreadable = Inl PermissionError \<and>
   load_state (Parsed (JNum 0)) = Inl TypeError"
  by (simp add: load_state_def load_state_try_def caught_by_def isinstance_exn_def)

text \<open>
  C6, amended: \<^verbatim>\<open>load_state\<close> returns the default state
  \<^verbatim>\<open>{"last_position": 0, "rules": {}}\<close> when the state file is absent, when its text
  is not valid JSON, and when it parses to a JSON object that lacks one of the keys
  \<^verbatim>\<open>last_position\<close> and \<^verbatim>\<open>rules\<close>; when it parses to an object with both keys, that
  object is returned. In none of these cases does it raise.
\<close>

theorem load_state_fail_open:
  "load_state Absent = Inr default_state \<and>
   load_state Malformed = Inr default_state \<and>
   load_state (Parsed (JObj kvs)) =
     Inr (if ''last_position'' \<in> fst ` set kvs \<and> ''rules'' \<in> fst ` set kvs
          then JObj kvs else default_state)"
  by (simp add: load_state_def load_state_try_def caught_by_def isinstance_exn_def)

text \<open>
  Only the temporary file changes before the rename: a step that opens or appends to
  \<open>t\<close> leaves every other path as it was.
\<close>

lemma fold_tmp_only:
  "\<forall>op \<in> set ops. (op = OpenTrunc t \<or> (\<exists>piece. op = Append t piece)) \<Longrightarrow> p \<noteq> t
     \<Longrightarrow> fold file_step ops fs p = fs p"
  by (induction ops arbitrary: fs) auto

lemma fold_append_pieces:
  "fs t = Some c \<Longrightarrow> fold file_step (map (Append t) pieces) fs t = Some (c @ concat pieces)"
  by (induction pieces arbitrary: fs c) auto

lemma tmp_path_neq: "tmp_path path \<noteq> path"
  by (simp add: tmp_path_def)

lemma dirname_tmp: "dirname (tmp_path path) = dirname path"
  by (simp add: dirname_def tmp_path_def)

lemma save_state_done: "save_state path pieces fs path = Some (concat pieces)"
  using fold_append_pieces [of "fs(tmp_path path \<mapsto> [])" "tmp_path path" "[]" pieces]
    tmp_path_neq [of path]
  by (auto simp add: save_state_def save_state_ops_def)

lemma save_state_before:
  assumes "n \<le> Suc (length pieces)"
  shows "save_state_upto n path pieces fs path = fs path"
proof -
  let ?pre = "OpenTrunc (tmp_path path) # map (Append (tmp_path path)) pieces"
  have "save_state_ops path pieces = ?pre @ [Replace (tmp_path path) path]"
    by (simp add: save_state_ops_def)
  then have "take n (save_state_ops path pieces) = take n ?pre"
    using assms by (simp del: append_Cons)
  moreover have "\<forall>op \<in> set (take n ?pre).
      (op = OpenTrunc (tmp_path path) \<or> (\<exists>piece. op = Append (tmp_path path) piece))"
    using set_take_subset [of n ?pre] by auto
  ultimately show ?thesis
    unfolding save_state_upto_def
    using fold_tmp_only [of "take n ?pre" "tmp_path path" path fs] tmp_path_neq [of path]
    by metis
qed

lemma save_state_after:
  assumes "Suc (length pieces) < n"
  shows "save_state_upto n path pieces fs = save_state path pieces fs"
  using assms by (simp add: save_state_upto_def save_state_def save_state_ops_def)

text \<open>
  C5: \<^verbatim>\<open>save_state\<close> writes to \<^verbatim>\<open>path.tmp\<close>, a file of the same directory as the
  target, and renames it over the target last. After any number of its steps short of
  the rename (the temporary file opened, and none, some or all of the pieces
  written), the target holds what it held before; once the rename is done it holds
  the whole new state. So the target is the complete old state or the complete new
  one at every point. The rename is one step, as \<^verbatim>\<open>os.replace\<close> promises.
\<close>

theorem save_state_atomic:
  "dirname (tmp_path path) = dirname path \<and>
   (\<forall>n. n \<le> Suc (length pieces) \<longrightarrow> save_state_upto n path pieces fs path = fs path) \<and>
   (\<forall>n. Suc (length pieces) < n \<longrightarrow>
      save_state_upto n path pieces fs path = Some (concat pieces)) \<and>
   save_state path pieces fs path = Some (concat pieces)"
  by (simp add: dirname_tmp save_state_before save_state_after save_state_done)

theorem save_state_atomic_witness:
  "(2::nat) \<le> Suc (length [''{'', ''}'']) \<and>
   save_state_upto 2 ''/var/state.json'' [''{'', ''}'']
     [''/var/state.json'' \<mapsto> ''old''] ''/var/state.json'' = Some ''old'' \<and>
   Suc (length [''{'', ''}'']) < (4::nat) \<and>
   save_state_upto 4 ''/var/state.json'' [''{'', ''}'']
     [''/var/state.json'' \<mapsto> ''old''] ''/var/state.json'' = Some ''{}''"
proof -
  note t = save_state_atomic [of "''/var/state.json''" "[''{'', ''}'']"
      "[''/var/state.json'' \<mapsto> ''old'']"]
  from t have "save_state_upto 2 ''/var/state.json'' [''{'', ''}'']
     [''/var/state.json'' \<mapsto> ''old''] ''/var/state.json'' = Some ''old''"
    by simp
  moreover from t have "save_state_upto 4 ''/var/state.json'' [''{'', ''}'']
     [''/var/state.json'' \<mapsto> ''old''] ''/var/state.json'' = Some ''{}''"
    by simp
  ultimately show ?thesis by simp
qed

section \<open>Properties of the event extractor\<close>

text \<open>
  The cases that C7 lists do yield nothing: a line without the marker, a line without
  an opening or a closing brace, and a line whose bracketed part does not parse.
\<close>

lemma extract_login_ip_skips:
  "\<not> str_contains marker line \<Longrightarrow> extract_login_ip loads line = Inr None"
  "str_index (CHR ''{'') line = None \<Longrightarrow> extract_login_ip loads line = Inr None"
  "str_rindex (CHR ''}'') line = None \<Longrightarrow> extract_login_ip loads line = Inr None"
  "str_index (CHR ''{'') line = Some i \<Longrightarrow> str_rindex (CHR ''}'') line = Some j \<Longrightarrow>
     loads (py_slice line i (j + 1)) = None \<Longrightarrow> extract_login_ip loads line = Inr None"
  by (auto simp: extract_login_ip_def extract_login_ip_try_def caught_by_def isinstance_exn_def
      split: option.splits)

text \<open>An address that is returned is not empty and has a dot.\<close>

lemma extract_login_ip_Some:
  "extract_login_ip loads line = Inr (Some ip) \<Longrightarrow> ip \<noteq> [] \<and> str_contains ''.'' ip"
  by (auto simp: extract_login_ip_def extract_login_ip_try_def
      split: if_splits option.splits sum.splits)

lemma extract_login_ip_sample:
  "extract_login_ip (json_loads sample_lib) login_line = Inr (Some ''203.0.113.5'')"
  by (simp add: extract_login_ip_def extract_login_ip_try_def login_line_def
      sample_lib_def login_doc_def marker_def dq_def LF_def str_rindex_def py_slice_def)

text \<open>
  C7 does not hold of the code: extraction is not total. On the line
  \<^verbatim>\<open>Exchange session: Badger sent {"requestIp": 1}\<close> the payload parses, \<^verbatim>\<open>requestIp\<close>
  is a number, and \<^verbatim>\<open>ip_port.split\<close> raises \<^verbatim>\<open>AttributeError\<close>, which the
  \<^verbatim>\<open>except (ValueError, json.JSONDecodeError)\<close> clause does not catch.
\<close>

theorem extract_login_ip_number_raises:
  "extract_login_ip (json_loads sample_lib) number_line = Inl AttributeError"
  by (simp add: extract_login_ip_def extract_login_ip_try_def number_line_def number_doc_def
      sample_lib_def login_doc_def marker_def dq_def LF_def str_rindex_def py_slice_def
      caught_by_def isinstance_exn_def)

section \<open>Properties of the access-control client\<close>

text \<open>
  C9, as stated, fails: a response with status 202, which is a 2xx status, and a body
  with a top-level \<^verbatim>\<open>id\<close> is a failure for \<^verbatim>\<open>create_rule\<close>, which accepts the
  statuses 200 and 201 only.
\<close>

theorem create_rule_rejects_202:
  "create_rule (py_str sample_lib) (Response 202 (Some (JObj [(''id'', JStr ''r1'')]))) = None"
  by (simp add: create_rule_def create_rule_try_def)

text \<open>
  C9, amended: for a response whose body decodes to an object in which the member
  \<^verbatim>\<open>data\<close> is absent or an object, \<^verbatim>\<open>create_rule\<close> returns a rule identifier if and
  only if the status is 200 or 201 and the body holds an identifier in one of the two
  shapes, \<^verbatim>\<open>data.ruleId\<close> taken first and the top-level \<^verbatim>\<open>id\<close> second
  (\<open>identifier_of\<close>); what it returns is \<^verbatim>\<open>str\<close> of that identifier. A status other
  than 200 and 201 whatever the body, a body that does not decode or is not an object,
  and a timeout or other transport error give \<^verbatim>\<open>None\<close>; and when the call made for a
  scanned line gives \<^verbatim>\<open>None\<close>, no record is added: the rule set is left as it was.
\<close>

theorem create_rule_success_criterion:
  "(data_absent_or_object kvs \<longrightarrow>
      create_rule str_of (Response status_code (Some (JObj kvs))) =
        (if status_code = 200 \<or> status_code = 201
         then map_option str_of (identifier_of kvs) else None)) \<and>
   (status_code \<noteq> 200 \<longrightarrow> status_code \<noteq> 201 \<longrightarrow>
      create_rule str_of (Response status_code body) = None) \<and>
   create_rule str_of (Response status_code None) = None \<and>
   ((\<forall>members. document \<noteq> JObj members) \<longrightarrow>
      create_rule str_of (Response status_code (Some document)) = None) \<and>
   create_rule str_of TransportError = None \<and>
   (extract_login_ip (json_loads l) line = Inr (Some ip) \<longrightarrow>
    create_rule (py_str l) (api e tr (PutRule ip)) = None \<longrightarrow>
      (\<exists>tr'. scan_step l e line (tr, pos, active_rules)
          = Inr (tr', pos + int (length line), active_rules)))"
proof -
  have "create_rule str_of (Response status_code (Some (JObj kvs))) =
        (if status_code = 200 \<or> status_code = 201
         then map_option str_of (identifier_of kvs) else None)"
    if "data_absent_or_object kvs"
    using that
    by (auto simp: create_rule_def create_rule_try_def identifier_of_def nested_rule_id_def
        top_level_id_def data_absent_or_object_def split: option.splits json.splits)
  moreover have "create_rule str_of (Response status_code body) = None"
    if "status_code \<noteq> 200" "status_code \<noteq> 201"
    using that by (simp add: create_rule_def create_rule_try_def)
  moreover have "create_rule str_of (Response status_code None) = None"
    by (simp add: create_rule_def create_rule_try_def)
  moreover have "create_rule str_of (Response status_code (Some document)) = None"
    if "\<forall>members. document \<noteq> JObj members"
    using that by (cases document) (simp_all add: create_rule_def create_rule_try_def)
  moreover have "create_rule str_of TransportError = None"
    by (simp add: create_rule_def create_rule_try_def)
  moreover have "\<exists>tr'. scan_step l e line (tr, pos, active_rules)
          = Inr (tr', pos + int (length line), active_rules)"
    if "extract_login_ip (json_loads l) line = Inr (Some ip)"
      "create_rule (py_str l) (api e tr (PutRule ip)) = None"
    using that by (simp add: scan_step_def Let_def)
  ultimately show ?thesis by blast
qed

theorem create_rule_success_criterion_witness:
  "data_absent_or_object [(''data'', JObj [(''ruleId'', JStr ''r2'')])] \<and>
   create_rule (py_str sample_lib)
     (Response 201 (Some (JObj [(''data'', JObj [(''ruleId'', JStr ''r2'')])]))) = Some ''r2'' \<and>
   (500::int) \<noteq> 200 \<and> (500::int) \<noteq> 201 \<and>
   create_rule (py_str sample_lib) (Response 500 (Some (JObj [(''id'', JStr ''r1'')]))) = None \<and>
   (\<forall>members. JArr [] \<noteq> JObj members) \<and>
   create_rule (py_str sample_lib) (Response 200 (Some (JArr []))) = None \<and>
   extract_login_ip (json_loads sample_lib) login_line = Inr (Some ''203.0.113.5'') \<and>
   create_rule (py_str sample_lib)
     (api (sample_env default_state login_line refuse_all) [] (PutRule ''203.0.113.5'')) = None \<and>
   (\<exists>tr'. scan_step sample_lib (sample_env default_state login_line refuse_all) login_line
             ([], 0, []) = Inr (tr', 0 + int (length login_line), []))"
proof -
  have d: "data_absent_or_object [(''data'', JObj [(''ruleId'', JStr ''r2'')])]"
    by (simp add: data_absent_or_object_def)
  have x: "extract_login_ip (json_loads sample_lib) login_line = Inr (Some ''203.0.113.5'')"
    by (rule extract_login_ip_sample)
  have c: "create_rule (py_str sample_lib)
     (api (sample_env default_state login_line refuse_all) [] (PutRule ''203.0.113.5'')) = None"
    by (simp add: sample_env_def refuse_all_def create_rule_def create_rule_try_def)
  have n: "\<forall>members. JArr [] \<noteq> JObj members" by simp
  note t1 = create_rule_success_criterion [of "[(''data'', JObj [(''ruleId'', JStr ''r2'')])]"
      "py_str sample_lib" 201 None "JArr []" sample_lib login_line
      "''203.0.113.5''" "sample_env default_state login_line refuse_all" "[]" 0 "[]"]
  note t2 = create_rule_success_criterion [of "[]"
      "py_str sample_lib" 500 "Some (JObj [(''id'', JStr ''r1'')])" "JArr []" sample_lib login_line
      "''203.0.113.5''" "sample_env default_state login_line refuse_all" "[]" 0 "[]"]
  note t3 = create_rule_success_criterion [of "[]"
      "py_str sample_lib" 200 None "JArr []" sample_lib login_line
      "''203.0.113.5''" "sample_env default_state login_line refuse_all" "[]" 0 "[]"]
  from t1 d have a: "create_rule (py_str sample_lib)
     (Response 201 (Some (JObj [(''data'', JObj [(''ruleId'', JStr ''r2'')])]))) = Some ''r2''"
    by (simp add: identifier_of_def nested_rule_id_def sample_lib_def)
  from t2 have b: "create_rule (py_str sample_lib)
      (Response 500 (Some (JObj [(''id'', JStr ''r1'')]))) = None"
    by simp
  from t3 n have g: "create_rule (py_str sample_lib) (Response 200 (Some (JArr []))) = None"
    by blast
  from t1 x c have s: "\<exists>tr'. scan_step sample_lib (sample_env default_state login_line refuse_all)
      login_line ([], 0, []) = Inr (tr', 0 + int (length login_line), [])"
    by blast
  from d a b n g x c s show ?thesis by simp
qed

section \<open>Properties of the scanning loop\<close>

lemma for_each_append:
  "for_each body (xs @ ys) s =
     (case for_each body xs s of Inl e \<Rightarrow> Inl e | Inr s' \<Rightarrow> for_each body ys s')"
  by (induction xs arbitrary: s) (auto split: sum.splits)

lemma for_each_Cons_Inr:
  "for_each body (x # xs) s = Inr s'' \<longleftrightarrow>
     (\<exists>s'. body x s = Inr s' \<and> for_each body xs s' = Inr s'')"
  by (auto split: sum.splits)


lemma scan_step_cases:
  assumes "scan_step l e line (tr, pos, act) = Inr (tr', pos', act')"
  shows "pos' = pos + int (length line) \<and>
    ((tr' = tr \<and> act' = act) \<or>
     (\<exists>ip. extract_login_ip (json_loads l) line = Inr (Some ip) \<and> ip \<notin> fst ` set act \<and>
        tr' = tr @ [(PutRule ip, api e tr (PutRule ip))] \<and>
        (if created l (api e tr (PutRule ip))
         then act' = AList.update ip
                (new_rule (the (create_rule (py_str l) (api e tr (PutRule ip))))
                   (isoformat l (clock e tr' + timedelta_minutes TTL_MINUTES))) act
         else act' = act)))"
  using assms
  by (auto simp: scan_step_def Let_def created_def split: sum.splits option.splits if_splits)

text \<open>
  A key of the rule set stays a key with the same record through any number of
  lines, and no create-rule call is made for it.
\<close>

lemma scan_present:
  "scan l e lines (tr, pos, act) = Inr (tr', pos', act') \<Longrightarrow> ip \<in> fst ` set act \<Longrightarrow>
     \<exists>new. tr' = tr @ new \<and> \<not> list_ex (put_for ip) new \<and>
       map_of act' ip = map_of act ip \<and> ip \<in> fst ` set act'"
proof (induction lines arbitrary: tr pos act)
  case Nil
  then show ?case by (simp add: scan_def)
next
  case (Cons line lines)
  from Cons.prems(1) obtain tr1 pos1 act1 where
    step: "scan_step l e line (tr, pos, act) = Inr (tr1, pos1, act1)" and
    rest: "scan l e lines (tr1, pos1, act1) = Inr (tr', pos', act')"
    unfolding scan_def for_each_Cons_Inr by auto
  have a: "map_of act1 ip = map_of act ip \<and> ip \<in> fst ` set act1 \<and>
     (\<exists>d. tr1 = tr @ d \<and> \<not> list_ex (put_for ip) d)"
  proof (cases "tr1 = tr \<and> act1 = act")
    case True
    with Cons.prems(2) show ?thesis by simp
  next
    case False
    with scan_step_cases [OF step] obtain ip' where
      ip': "ip' \<notin> fst ` set act" "tr1 = tr @ [(PutRule ip', api e tr (PutRule ip'))]"
        "act1 = act \<or> (\<exists>v. act1 = AList.update ip' v act)"
      by (auto split: if_splits)
    from ip'(1) Cons.prems(2) have neq: "ip' \<noteq> ip" by blast
    from ip'(3) neq have "map_of act1 ip = map_of act ip"
      by (auto simp: update_conv')
    moreover from ip'(3) Cons.prems(2) have "ip \<in> fst ` set act1"
      by (auto simp only: dom_update)
    moreover from ip'(2) neq have "\<not> list_ex (put_for ip) [(PutRule ip', api e tr (PutRule ip'))]"
      by (simp add: put_for_def)
    ultimately show ?thesis using ip'(2) by blast
  qed
  then obtain d where d: "tr1 = tr @ d" "\<not> list_ex (put_for ip) d" by blast
  from Cons.IH [OF rest] a obtain new where
    "tr' = tr1 @ new" "\<not> list_ex (put_for ip) new" "map_of act' ip = map_of act1 ip"
    "ip \<in> fst ` set act'" by blast
  with a d show ?case by (intro exI [of _ "d @ new"]) simp
qed

lemma scan_position:
  "scan l e lines (tr, pos, act) = Inr (tr', pos', act') \<Longrightarrow>
     pos' = pos + (\<Sum>line\<leftarrow>lines. int (length line))"
proof (induction lines arbitrary: tr pos act)
  case Nil
  then show ?case by (simp add: scan_def)
next
  case (Cons line lines)
  from Cons.prems(1) obtain tr1 pos1 act1 where
    step: "scan_step l e line (tr, pos, act) = Inr (tr1, pos1, act1)" and
    rest: "scan l e lines (tr1, pos1, act1) = Inr (tr', pos', act')"
    unfolding scan_def for_each_Cons_Inr by auto
  from scan_step_cases [OF step] Cons.IH [OF rest] show ?case by simp
qed

lemma scan_step_trace:
  assumes "scan_step l e line (tr, pos, act) = Inr (tr1, pos1, act1)"
  shows "tr1 = tr \<or>
    (\<exists>ev. tr1 = tr @ [ev] \<and> (\<forall>ip. put_for ip ev \<longrightarrow> created l (snd ev) \<longrightarrow> ip \<in> fst ` set act1))"
proof (cases "tr1 = tr \<and> act1 = act")
  case True
  then show ?thesis by simp
next
  case False
  with scan_step_cases [OF assms] obtain ip' where
    ip': "tr1 = tr @ [(PutRule ip', api e tr (PutRule ip'))]"
      "created l (api e tr (PutRule ip')) \<longrightarrow> (\<exists>v. act1 = AList.update ip' v act)"
    by (auto split: if_splits)
  have "\<forall>ip. put_for ip (PutRule ip', api e tr (PutRule ip')) \<longrightarrow>
      created l (snd (PutRule ip', api e tr (PutRule ip'))) \<longrightarrow> ip \<in> fst ` set act1"
    using ip'(2) by (auto simp: put_for_def dom_update)
  with ip'(1) show ?thesis by blast
qed

lemma scan_once:
  "scan l e lines (tr, pos, act) = Inr (tr', pos', act') \<Longrightarrow>
     \<exists>new. tr' = tr @ new \<and> creates_once l ip new"
proof (induction lines arbitrary: tr pos act)
  case Nil
  then show ?case by (simp add: scan_def)
next
  case (Cons line lines)
  from Cons.prems(1) obtain tr1 pos1 act1 where
    step: "scan_step l e line (tr, pos, act) = Inr (tr1, pos1, act1)" and
    rest: "scan l e lines (tr1, pos1, act1) = Inr (tr', pos', act')"
    unfolding scan_def for_each_Cons_Inr by auto
  from Cons.IH [OF rest] obtain new where
    new: "tr' = tr1 @ new" "creates_once l ip new"
    by blast
  from scan_step_trace [OF step] show ?case
  proof
    assume "tr1 = tr"
    with new show ?thesis by blast
  next
    assume "\<exists>ev. tr1 = tr @ [ev] \<and>
      (\<forall>ip. put_for ip ev \<longrightarrow> created l (snd ev) \<longrightarrow> ip \<in> fst ` set act1)"
    then obtain ev0 where ev0: "tr1 = tr @ [ev0]"
      "\<forall>ip. put_for ip ev0 \<longrightarrow> created l (snd ev0) \<longrightarrow> ip \<in> fst ` set act1" by blast
    have "\<not> list_ex (put_for ip) new" if "put_for ip ev0" "created l (snd ev0)"
    proof -
      from that ev0(2) have "ip \<in> fst ` set act1" by blast
      from scan_present [OF rest this] new(1) show ?thesis by auto
    qed
    with new(2) have "creates_once l ip (ev0 # new)" by auto
    moreover from new(1) ev0(1) have "tr' = tr @ ev0 # new" by simp
    ultimately show ?thesis by blast
  qed
qed

text \<open>
  A record that the loop leaves in the rule set and that was not there before was
  inserted after a successful create-rule call of this loop, with the clock read
  after that call.
\<close>

lemma scan_new_records:
  "scan l e lines (tr, pos, act) = Inr (tr', pos', act') \<Longrightarrow>
   map_of act' ip = Some info \<Longrightarrow> map_of act ip \<noteq> Some info \<Longrightarrow>
     \<exists>mid result rule_id after.
       tr' = tr @ mid @ (PutRule ip, result) # after \<and>
       create_rule (py_str l) result = Some rule_id \<and> rule_id \<noteq> [] \<and>
       info = new_rule rule_id
         (isoformat l (clock e (tr @ mid @ [(PutRule ip, result)]) + timedelta_minutes TTL_MINUTES))"
proof (induction lines arbitrary: tr pos act)
  case Nil
  then show ?case by (simp add: scan_def)
next
  case (Cons line lines)
  from Cons.prems(1) obtain tr1 pos1 act1 where
    step: "scan_step l e line (tr, pos, act) = Inr (tr1, pos1, act1)" and
    rest: "scan l e lines (tr1, pos1, act1) = Inr (tr', pos', act')"
    unfolding scan_def for_each_Cons_Inr by auto
  from scan_once [OF rest] obtain new where new: "tr' = tr1 @ new" by blast
  from scan_step_trace [OF step] obtain d where d: "tr1 = tr @ d" by auto
  show ?case
  proof (cases "map_of act1 ip = Some info")
    case False
    from Cons.IH [OF rest Cons.prems(2) False] obtain mid result rule_id after where
      h: "tr' = tr1 @ mid @ (PutRule ip, result) # after"
        "create_rule (py_str l) result = Some rule_id" "rule_id \<noteq> []"
        "info = new_rule rule_id
           (isoformat l (clock e (tr1 @ mid @ [(PutRule ip, result)]) + timedelta_minutes TTL_MINUTES))"
      by blast
    from h d show ?thesis
      by (intro exI [of _ "d @ mid"] exI [of _ result] exI [of _ rule_id] exI [of _ after]) simp
  next
    case True
    with Cons.prems(3) have changed: "\<not> (tr1 = tr \<and> act1 = act)" by auto
    with scan_step_cases [OF step] obtain ip' where
      ip': "tr1 = tr @ [(PutRule ip', api e tr (PutRule ip'))]"
        "if created l (api e tr (PutRule ip'))
         then act1 = AList.update ip'
                (new_rule (the (create_rule (py_str l) (api e tr (PutRule ip'))))
                   (isoformat l (clock e tr1 + timedelta_minutes TTL_MINUTES))) act
         else act1 = act"
      by auto
    from ip'(2) True Cons.prems(3) have c: "created l (api e tr (PutRule ip'))"
      by (auto split: if_splits)
    with ip'(2) True Cons.prems(3) have "ip' = ip"
      by (auto simp: update_conv' split: if_splits)
    with ip'(2) c True have info: "info = new_rule (the (create_rule (py_str l) (api e tr (PutRule ip))))
                   (isoformat l (clock e tr1 + timedelta_minutes TTL_MINUTES))"
      by (auto simp: update_conv')
    from c \<open>ip' = ip\<close> obtain rule_id where
      rid: "create_rule (py_str l) (api e tr (PutRule ip)) = Some rule_id" "rule_id \<noteq> []"
      by (auto simp: created_def split: option.splits)
    from new ip'(1) \<open>ip' = ip\<close> have "tr' = tr @ [] @ (PutRule ip, api e tr (PutRule ip)) # new"
      by simp
    with info rid ip'(1) \<open>ip' = ip\<close> show ?thesis
      by (intro exI [of _ "[]"] exI [of _ "api e tr (PutRule ip)"] exI [of _ rule_id]
          exI [of _ new]) simp
  qed
qed

lemma scan_only_puts:
  "scan l e lines (tr, pos, act) = Inr (tr', pos', act') \<Longrightarrow>
     \<exists>new. tr' = tr @ new \<and> list_all (\<lambda>ev. \<not> is_delete ev) new"
proof (induction lines arbitrary: tr pos act)
  case Nil
  then show ?case by (simp add: scan_def)
next
  case (Cons line lines)
  from Cons.prems(1) obtain tr1 pos1 act1 where
    step: "scan_step l e line (tr, pos, act) = Inr (tr1, pos1, act1)" and
    rest: "scan l e lines (tr1, pos1, act1) = Inr (tr', pos', act')"
    unfolding scan_def for_each_Cons_Inr by auto
  from scan_step_cases [OF step] obtain d where
    d: "tr1 = tr @ d" "list_all (\<lambda>ev. \<not> is_delete ev) d"
    by (auto simp: is_delete_def)
  from Cons.IH [OF rest] obtain new where
    "tr' = tr1 @ new" "list_all (\<lambda>ev. \<not> is_delete ev) new" by blast
  with d show ?case by (intro exI [of _ "d @ new"]) simp
qed

lemma read_lines_length:
  "(\<Sum>line\<leftarrow>read_lines cur bytes. length line) \<le> length cur + length bytes"
  by (induction cur bytes rule: read_lines.induct) auto

lemma read_lines_length_no_cr:
  "CR \<notin> set bytes \<Longrightarrow>
     (\<Sum>line\<leftarrow>read_lines cur bytes. length line) = length cur + length bytes"
  by (induction cur bytes rule: read_lines.induct) auto

section \<open>Properties of a run\<close>

lemma saved_fields:
  "saved_rules (JObj (AList.update ''rules'' (JObj act) (AList.update ''last_position'' v kvs))) = act"
  "saved_offset (JObj (AList.update ''rules'' (JObj act) (AList.update ''last_position'' v kvs))) = v"
  by (simp_all add: saved_rules_def saved_offset_def update_conv')

lemma set_item_Inr: "set_item j k x = Inr j' \<Longrightarrow> \<exists>kvs. j = JObj kvs \<and> j' = JObj (AList.update k x kvs)"
  by (cases j) auto

lemma main_scan_Inr:
  assumes "main_scan l e (state, lp, tr, pruned) = Inr (tr', saved)"
  shows "\<exists>bytes start pos' act'.
     log_bytes e = Some bytes \<and> as_number lp = Inr start \<and> 0 \<le> start \<and>
     scan l e (read_lines [] (drop (nat start) bytes)) (tr, start, pruned) = Inr (tr', pos', act') \<and>
     saved_rules saved = act' \<and>
     saved_offset saved = (if read_lines [] (drop (nat start) bytes) = [] then lp else JNum pos')"
proof -
  from assms obtain bytes where b: "log_bytes e = Some bytes"
    by (auto simp: main_scan_def split: option.splits)
  from assms b obtain start where st: "as_number lp = Inr start" "0 \<le> start"
    by (auto simp: main_scan_def split: sum.splits if_splits)
  let ?lines = "read_lines [] (drop (nat start) bytes)"
  from assms b st obtain pos' act' where
    sc: "scan l e ?lines (tr, start, pruned) = Inr (tr', pos', act')"
    by (auto simp: main_scan_def Let_def split: sum.splits if_splits)
  let ?v = "if ?lines = [] then lp else JNum pos'"
  from assms b st sc obtain state' where
    s1: "set_item state ''last_position'' ?v = Inr state'" and
    s2: "set_item state' ''rules'' (JObj act') = Inr saved"
    by (auto simp: main_scan_def Let_def split: sum.splits if_splits)
  from set_item_Inr [OF s1] set_item_Inr [OF s2] obtain kvs where
    "saved = JObj (AList.update ''rules'' (JObj act') (AList.update ''last_position'' ?v kvs))"
    by auto
  then have "saved_rules saved = act'" "saved_offset saved = ?v"
    using saved_fields [of act' ?v kvs] by simp_all
  with b st sc show ?thesis by blast
qed

lemma main_Inr:
  assumes "main l e = Inr (tr', saved)" "main_prune l e = Inr (state, lp, tr, pruned)"
  shows "main_scan l e (state, lp, tr, pruned) = Inr (tr', saved)"
  using assms by (simp add: main_def)

text \<open>
  C1: in the scanning loop of one run, whatever the lines, a successful create-rule
  call for an IP is followed by no further create-rule call for that IP, and no
  create-rule call at all is made for an IP that is a key of the rule set when the
  loop starts (expired or not: the test is membership). Stated for the loop from any
  loop state, and for \<^verbatim>\<open>main\<close> with the rule set that pruning leaves.
\<close>

theorem create_rule_once:
  "(scan l e lines (tr, pos, active_rules) = Inr (tr', pos', active_rules') \<longrightarrow>
      (\<exists>new. tr' = tr @ new \<and> creates_once l ip new \<and>
         (ip \<in> fst ` set active_rules \<longrightarrow> \<not> list_ex (put_for ip) new))) \<and>
   (main_prune l e = Inr (state, last_position, tr0, pruned) \<longrightarrow>
    main l e = Inr (tr1, saved) \<longrightarrow>
      (\<exists>new. tr1 = tr0 @ new \<and> creates_once l ip new \<and>
         (ip \<in> fst ` set pruned \<longrightarrow> \<not> list_ex (put_for ip) new)))"
proof -
  have a: "\<exists>new. t' = t @ new \<and> creates_once l ip new \<and>
         (ip \<in> fst ` set act \<longrightarrow> \<not> list_ex (put_for ip) new)"
    if sc: "scan l e ls (t, p, act) = Inr (t', p', act')" for ls t p act t' p' act'
  proof -
    from scan_once [OF sc] obtain new where new: "t' = t @ new" "creates_once l ip new"
      by blast
    have "\<not> list_ex (put_for ip) new" if "ip \<in> fst ` set act"
      using scan_present [OF sc that] new(1) by auto
    with new show ?thesis by blast
  qed
  have "\<exists>new. tr1 = tr0 @ new \<and> creates_once l ip new \<and>
         (ip \<in> fst ` set pruned \<longrightarrow> \<not> list_ex (put_for ip) new)"
    if "main_prune l e = Inr (state, last_position, tr0, pruned)" "main l e = Inr (tr1, saved)"
    using main_scan_Inr [OF main_Inr [OF that(2) that(1)]] a by blast
  with a show ?thesis by blast
qed

text \<open>
  C10: a line whose IP is already a key of the rule set changes nothing but the
  offset: no call is made and the rule set is the same. So the record of such an IP
  (its rule identifier and its expiry) is the same after the loop as before it, and
  in the saved state it is the record that pruning left.
\<close>

theorem repeated_login_keeps_record:
  "(extract_login_ip (json_loads l) line = Inr (Some ip) \<longrightarrow> ip \<in> fst ` set active_rules \<longrightarrow>
      scan_step l e line (tr, pos, active_rules) = Inr (tr, pos + int (length line), active_rules)) \<and>
   (scan l e lines (tr, pos, active_rules) = Inr (tr', pos', active_rules') \<longrightarrow>
    ip \<in> fst ` set active_rules \<longrightarrow>
      map_of active_rules' ip = map_of active_rules ip) \<and>
   (main_prune l e = Inr (state, last_position, tr0, pruned) \<longrightarrow>
    main l e = Inr (tr1, saved) \<longrightarrow> ip \<in> fst ` set pruned \<longrightarrow>
      map_of (saved_rules saved) ip = map_of pruned ip)"
proof -
  have "scan_step l e line (tr, pos, active_rules) = Inr (tr, pos + int (length line), active_rules)"
    if "extract_login_ip (json_loads l) line = Inr (Some ip)" "ip \<in> fst ` set active_rules"
    using that by (simp add: scan_step_def Let_def)
  moreover have "map_of active_rules' ip = map_of active_rules ip"
    if "scan l e lines (tr, pos, active_rules) = Inr (tr', pos', active_rules')"
      "ip \<in> fst ` set active_rules"
    using scan_present [OF that] by blast
  moreover have "map_of (saved_rules saved) ip = map_of pruned ip"
    if m: "main_prune l e = Inr (state, last_position, tr0, pruned)" "main l e = Inr (tr1, saved)"
      and i: "ip \<in> fst ` set pruned"
  proof -
    from main_scan_Inr [OF main_Inr [OF m(2) m(1)]] obtain ls start pos2 where
      "scan l e ls (tr0, start, pruned) = Inr (tr1, pos2, saved_rules saved)" by blast
    from scan_present [OF this i] show ?thesis by blast
  qed
  ultimately show ?thesis by blast
qed

text \<open>
  The two fields of a record that the scanning loop builds, as \<^verbatim>\<open>info["rule_id"]\<close> and
  \<^verbatim>\<open>info["expires_at"]\<close> read them.
\<close>

lemma new_rule_fields:
  "subscript (new_rule rule_id exp_time) ''rule_id'' = Inr (JStr rule_id)"
  "subscript (new_rule rule_id exp_time) ''expires_at'' = Inr (JStr exp_time)"
  by (simp_all add: new_rule_def)

text \<open>
  C8: when the create-rule call for a scanned line succeeds, the record that is
  inserted for the IP holds the returned identifier as \<^verbatim>\<open>rule_id\<close> and, as
  \<^verbatim>\<open>expires_at\<close>, the ISO form of the clock as read after that call plus the
  configured TTL of 360 minutes (21600000000 microseconds); and every record that
  scanning has added to the rule set, or to the saved state, holds such an
  \<^verbatim>\<open>expires_at\<close>. The clock reading \<open>clock e []\<close> that pruning used is not what it is
  computed from.
\<close>

theorem fresh_expiry:
  "timedelta_minutes TTL_MINUTES = 21600000000 \<and>
   (extract_login_ip (json_loads l) line = Inr (Some ip) \<longrightarrow>
    ip \<notin> fst ` set rules \<longrightarrow>
    create_rule (py_str l) (api e t (PutRule ip)) = Some rule_id \<longrightarrow> rule_id \<noteq> [] \<longrightarrow>
      (\<exists>t' p' rules' info.
         scan_step l e line (t, p, rules) = Inr (t', p', rules') \<and>
         t' = t @ [(PutRule ip, api e t (PutRule ip))] \<and>
         map_of rules' ip = Some info \<and>
         subscript info ''rule_id'' = Inr (JStr rule_id) \<and>
         subscript info ''expires_at'' = Inr (JStr (isoformat l (clock e t' + 21600000000))))) \<and>
   (scan l e lines (tr, pos, active_rules) = Inr (tr', pos', active_rules') \<longrightarrow>
    map_of active_rules' ip = Some info \<longrightarrow> map_of active_rules ip \<noteq> Some info \<longrightarrow>
      (\<exists>mid result rule_id after.
         tr' = tr @ mid @ (PutRule ip, result) # after \<and>
         create_rule (py_str l) result = Some rule_id \<and> rule_id \<noteq> [] \<and>
         subscript info ''rule_id'' = Inr (JStr rule_id) \<and>
         subscript info ''expires_at'' =
           Inr (JStr (isoformat l (clock e (tr @ mid @ [(PutRule ip, result)]) + 21600000000))))) \<and>
   (main_prune l e = Inr (state, last_position, tr0, pruned) \<longrightarrow>
    main l e = Inr (tr1, saved) \<longrightarrow>
    map_of (saved_rules saved) ip = Some info \<longrightarrow> map_of pruned ip \<noteq> Some info \<longrightarrow>
      (\<exists>mid result rule_id after.
         tr1 = tr0 @ mid @ (PutRule ip, result) # after \<and>
         create_rule (py_str l) result = Some rule_id \<and> rule_id \<noteq> [] \<and>
         subscript info ''rule_id'' = Inr (JStr rule_id) \<and>
         subscript info ''expires_at'' =
           Inr (JStr (isoformat l (clock e (tr0 @ mid @ [(PutRule ip, result)]) + 21600000000)))))"
proof -
  have ttl: "timedelta_minutes TTL_MINUTES = 21600000000"
    by (simp add: timedelta_minutes_def TTL_MINUTES_def)
  have loop: "\<exists>mid result rule_id after.
         c' = c @ mid @ (PutRule ip, result) # after \<and>
         create_rule (py_str l) result = Some rule_id \<and> rule_id \<noteq> [] \<and>
         subscript info ''rule_id'' = Inr (JStr rule_id) \<and>
         subscript info ''expires_at'' =
           Inr (JStr (isoformat l (clock e (c @ mid @ [(PutRule ip, result)]) + 21600000000)))"
    if sc: "scan l e ls (c, q, act) = Inr (c', q', act')"
      and i: "map_of act' ip = Some info" "map_of act ip \<noteq> Some info"
    for ls c q act c' q' act'
  proof -
    from scan_new_records [OF sc i] obtain mid result rule_id after where
      h: "c' = c @ mid @ (PutRule ip, result) # after"
        "create_rule (py_str l) result = Some rule_id" "rule_id \<noteq> []"
        "info = new_rule rule_id
           (isoformat l (clock e (c @ mid @ [(PutRule ip, result)]) + timedelta_minutes TTL_MINUTES))"
      by blast
    from h(4) have "subscript info ''rule_id'' = Inr (JStr rule_id)"
      "subscript info ''expires_at'' =
           Inr (JStr (isoformat l (clock e (c @ mid @ [(PutRule ip, result)]) + 21600000000)))"
      by (simp_all add: new_rule_fields ttl)
    with h(1-3) show ?thesis by blast
  qed
  have run: "\<exists>mid result rule_id after.
         tr1 = tr0 @ mid @ (PutRule ip, result) # after \<and>
         create_rule (py_str l) result = Some rule_id \<and> rule_id \<noteq> [] \<and>
         subscript info ''rule_id'' = Inr (JStr rule_id) \<and>
         subscript info ''expires_at'' =
           Inr (JStr (isoformat l (clock e (tr0 @ mid @ [(PutRule ip, result)]) + 21600000000)))"
    if m: "main_prune l e = Inr (state, last_position, tr0, pruned)" "main l e = Inr (tr1, saved)"
      and i: "map_of (saved_rules saved) ip = Some info" "map_of pruned ip \<noteq> Some info"
  proof -
    from main_scan_Inr [OF main_Inr [OF m(2) m(1)]] obtain ls start pos2 where
      "scan l e ls (tr0, start, pruned) = Inr (tr1, pos2, saved_rules saved)" by blast
    from loop [OF this i] show ?thesis .
  qed
  have step: "\<exists>t' p' rules' info.
         scan_step l e line (t, p, rules) = Inr (t', p', rules') \<and>
         t' = t @ [(PutRule ip, api e t (PutRule ip))] \<and>
         map_of rules' ip = Some info \<and>
         subscript info ''rule_id'' = Inr (JStr rule_id) \<and>
         subscript info ''expires_at'' = Inr (JStr (isoformat l (clock e t' + 21600000000)))"
    if x: "extract_login_ip (json_loads l) line = Inr (Some ip)" "ip \<notin> fst ` set rules"
      "create_rule (py_str l) (api e t (PutRule ip)) = Some rule_id" "rule_id \<noteq> []"
  proof -
    let ?t' = "t @ [(PutRule ip, api e t (PutRule ip))]"
    let ?info = "new_rule rule_id (isoformat l (clock e ?t' + timedelta_minutes TTL_MINUTES))"
    from x extract_login_ip_Some [OF x(1)]
    have "scan_step l e line (t, p, rules) =
        Inr (?t', p + int (length line), AList.update ip ?info rules)"
      by (simp add: scan_step_def Let_def)
    moreover have "map_of (AList.update ip ?info rules) ip = Some ?info"
      by (simp add: update_conv')
    moreover have "subscript ?info ''rule_id'' = Inr (JStr rule_id)"
      "subscript ?info ''expires_at'' = Inr (JStr (isoformat l (clock e ?t' + 21600000000)))"
      by (simp_all add: new_rule_fields ttl)
    ultimately show ?thesis by blast
  qed
  from ttl step loop [of lines tr pos active_rules tr' pos' active_rules'] run
  show ?thesis by blast
qed

section \<open>Properties of the pruning loop\<close>

lemma prune_step_cases:
  assumes "prune_step l e now (ip, info) (tr, upd) = Inr (tr', upd')"
  shows "\<exists>t rule_id. expiry_of l info = Inr (Aware t) \<and> subscript info ''rule_id'' = Inr rule_id \<and>
     (if t \<le> now
      then tr' = tr @ [(DeleteRule rule_id, api e tr (DeleteRule rule_id))] \<and>
           (\<exists>b. delete_rule (api e tr (DeleteRule rule_id)) = Inr b \<and>
                upd' = (if b then upd else AList.update ip info upd))
      else tr' = tr \<and> upd' = AList.update ip info upd)"
proof -
  from assms obtain v where v: "subscript info ''expires_at'' = Inr v"
    by (auto simp: prune_step_def split: sum.splits)
  from assms v obtain dt where dt: "parse_datetime l v = Inr dt"
    by (auto simp: prune_step_def split: sum.splits)
  from assms v dt obtain rule_id where r: "subscript info ''rule_id'' = Inr rule_id"
    by (auto simp: prune_step_def split: sum.splits)
  from assms v dt r obtain t where t: "dt = Aware t"
    by (cases dt) (auto simp: prune_step_def)
  from assms v dt r t show ?thesis
    by (auto simp: prune_step_def expiry_of_def Let_def split: sum.splits if_splits)
qed

text \<open>
  Pruning makes delete-rule calls only, and leaves alone the keys that are not among
  its items.
\<close>

lemma prune_frame:
  "prune l e now items (tr, upd) = Inr (tr', upd') \<Longrightarrow>
     (\<exists>d. tr' = tr @ d \<and> list_all is_delete d) \<and>
     (\<forall>k. k \<notin> fst ` set items \<longrightarrow> map_of upd' k = map_of upd k)"
proof (induction items arbitrary: tr upd)
  case Nil
  then show ?case by (simp add: prune_def)
next
  case (Cons item items)
  obtain ip info where item: "item = (ip, info)" by (cases item)
  from Cons.prems obtain tr1 upd1 where
    step: "prune_step l e now (ip, info) (tr, upd) = Inr (tr1, upd1)" and
    rest: "prune l e now items (tr1, upd1) = Inr (tr', upd')"
    unfolding prune_def for_each_Cons_Inr item by auto
  from prune_step_cases [OF step] have
    a: "(\<exists>d. tr1 = tr @ d \<and> list_all is_delete d)" and
    b: "\<forall>k. k \<noteq> ip \<longrightarrow> map_of upd1 k = map_of upd k"
    by (auto simp: is_delete_def update_conv' split: if_splits)
  from a obtain d where d: "tr1 = tr @ d" "list_all is_delete d" by blast
  from Cons.IH [OF rest] obtain d' where
    d': "tr' = tr1 @ d'" "list_all is_delete d'"
    and f: "\<forall>k. k \<notin> fst ` set items \<longrightarrow> map_of upd' k = map_of upd1 k" by blast
  from d d' have "tr' = tr @ (d @ d')" "list_all is_delete (d @ d')" by simp_all
  moreover from b f item have "\<forall>k. k \<notin> fst ` set (item # items) \<longrightarrow> map_of upd' k = map_of upd k"
    by simp
  ultimately show ?case by blast
qed

lemma prune_append_Inr:
  "prune l e now (pre @ item # post) s = Inr s' \<Longrightarrow>
     \<exists>s1 s2. prune l e now pre s = Inr s1 \<and> prune_step l e now item s1 = Inr s2 \<and>
       prune l e now post s2 = Inr s'"
  unfolding prune_def for_each_append by (auto split: sum.splits)

text \<open>What pruning does with one record of the loaded rules.\<close>

lemma prune_record:
  assumes p: "prune l e now (pre @ (ip, info) # post) ([], []) = Inr (trp, pruned)"
    and dist: "distinct (map fst (pre @ (ip, info) # post))"
  shows "\<exists>t rule_id tr0 updated.
      expiry_of l info = Inr (Aware t) \<and> subscript info ''rule_id'' = Inr rule_id \<and>
      prune l e now pre ([], []) = Inr (tr0, updated) \<and>
      list_all is_delete trp \<and>
      (if t \<le> now then
         (DeleteRule rule_id, api e tr0 (DeleteRule rule_id)) \<in> set trp \<and>
         (\<exists>b. delete_rule (api e tr0 (DeleteRule rule_id)) = Inr b \<and>
            map_of pruned ip = (if b then None else Some info))
       else map_of pruned ip = Some info)"
proof -
  from prune_append_Inr [OF p] obtain tr0 upd0 tr2 upd2 where
    a: "prune l e now pre ([], []) = Inr (tr0, upd0)" and
    b: "prune_step l e now (ip, info) (tr0, upd0) = Inr (tr2, upd2)" and
    c: "prune l e now post (tr2, upd2) = Inr (trp, pruned)"
    by (metis surj_pair)
  from dist have n1: "ip \<notin> fst ` set pre" and n2: "ip \<notin> fst ` set post" by auto
  from prune_frame [OF a] n1 have u0: "map_of upd0 ip = None" by simp
  from prune_frame [OF c] n2 obtain d2 where
    d2: "trp = tr2 @ d2" and u2: "map_of pruned ip = map_of upd2 ip" by auto
  from prune_frame [OF p] have del: "list_all is_delete trp" by auto
  from prune_step_cases [OF b] obtain t rule_id where
    t: "expiry_of l info = Inr (Aware t)" "subscript info ''rule_id'' = Inr rule_id"
      "if t \<le> now
      then tr2 = tr0 @ [(DeleteRule rule_id, api e tr0 (DeleteRule rule_id))] \<and>
           (\<exists>b. delete_rule (api e tr0 (DeleteRule rule_id)) = Inr b \<and>
                upd2 = (if b then upd0 else AList.update ip info upd0))
      else tr2 = tr0 \<and> upd2 = AList.update ip info upd0"
    by blast
  have "if t \<le> now then
         (DeleteRule rule_id, api e tr0 (DeleteRule rule_id)) \<in> set trp \<and>
         (\<exists>b. delete_rule (api e tr0 (DeleteRule rule_id)) = Inr b \<and>
            map_of pruned ip = (if b then None else Some info))
       else map_of pruned ip = Some info"
  proof (cases "t \<le> now")
    case True
    with t(3) obtain b where
      x: "tr2 = tr0 @ [(DeleteRule rule_id, api e tr0 (DeleteRule rule_id))]"
        "delete_rule (api e tr0 (DeleteRule rule_id)) = Inr b"
        "upd2 = (if b then upd0 else AList.update ip info upd0)"
      by auto
    from x(3) u0 u2 have "map_of pruned ip = (if b then None else Some info)"
      by (simp add: update_conv')
    with True x(1,2) d2 show ?thesis by auto
  next
    case False
    with t(3) u2 show ?thesis by (simp add: update_conv')
  qed
  with t(1,2) a del show ?thesis by blast
qed

lemma main_prune_Inr:
  assumes "main_load e = Inr (state, lp, JObj items)" "main l e = Inr (tr1, saved)"
  shows "\<exists>trp pruned. prune l e (clock e []) items ([], []) = Inr (trp, pruned) \<and>
     main_prune l e = Inr (state, lp, trp, pruned)"
  using assms by (auto simp: main_def main_prune_def split: sum.splits)

lemma main_Inr_prune:
  assumes "main l e = Inr (tr1, saved)"
  shows "\<exists>state lp rules trp pruned. main_load e = Inr (state, lp, rules) \<and>
     main_prune l e = Inr (state, lp, trp, pruned) \<and>
     main_scan l e (state, lp, trp, pruned) = Inr (tr1, saved)"
  using assms by (auto simp: main_def main_prune_def split: sum.splits)

lemma main_scan_eval:
  assumes "log_bytes e = Some bytes" "0 \<le> start"
    and "scan l e (read_lines [] (drop (nat start) bytes)) (tr, start, pruned) = Inr (tr', pos', act')"
  shows "main_scan l e (JObj kvs, JNum start, tr, pruned) =
     Inr (tr', JObj (AList.update ''rules'' (JObj act')
            (AList.update ''last_position''
               (if read_lines [] (drop (nat start) bytes) = [] then JNum start else JNum pos') kvs)))"
  using assms by (simp add: main_scan_def)

section \<open>The sample runs\<close>

lemma sum_int_length: "(\<Sum>line\<leftarrow>ls. int (length line)) = int (\<Sum>line\<leftarrow>ls. length line)"
  by (induction ls) auto

lemma log_bytes_sample: "log_bytes (sample_env st bytes service) = Some bytes"
  by (simp add: sample_env_def)

lemma clock_sample:
  "clock (sample_env st bytes service) tr = 1704067200000000 + 2000000 * int (length tr)"
  by (simp add: sample_env_def)

lemma api_sample: "api (sample_env st bytes service) = service"
  by (simp add: sample_env_def)

lemma load_state_with:
  "load_state (state_file (sample_env (state_with offset rules) bytes service)) =
     Inr (state_with offset rules)"
  by (simp add: sample_env_def load_state_def load_state_try_def state_with_def)

lemma main_load_state_with:
  "main_load (sample_env (state_with offset rules) bytes service) =
     Inr (if int (length bytes) < offset then state_with 0 rules else state_with offset rules,
          JNum (if int (length bytes) < offset then 0 else offset), JObj rules)"
  by (simp add: main_load_def sample_env_def load_state_def load_state_try_def state_with_def)

lemma main_prune_sample:
  assumes "prune l (sample_env (state_with 0 rules) bytes service) 1704067200000000 rules ([], [])
      = Inr (tr, pruned)"
  shows "main_prune l (sample_env (state_with 0 rules) bytes service) =
     Inr (state_with 0 rules, JNum 0, tr, pruned)"
  using assms by (simp add: main_prune_def main_load_state_with clock_sample)

lemma main_sample:
  assumes "prune l (sample_env (state_with 0 rules) bytes service) 1704067200000000 rules ([], [])
      = Inr (tr, pruned)"
    and "scan l (sample_env (state_with 0 rules) bytes service) (read_lines [] bytes)
      (tr, 0, pruned) = Inr (tr', pos', rules')"
    and "read_lines [] bytes \<noteq> []"
  shows "main l (sample_env (state_with 0 rules) bytes service) = Inr (tr', state_with pos' rules')"
proof -
  from main_scan_eval [OF log_bytes_sample, of 0 l "state_with 0 rules" bytes service tr pruned tr'
      pos' rules' "[(''last_position'', JNum 0), (''rules'', JObj rules)]"] assms(2,3)
  have "main_scan l (sample_env (state_with 0 rules) bytes service)
      (state_with 0 rules, JNum 0, tr, pruned) = Inr (tr', state_with pos' rules')"
    by (simp add: state_with_def)
  with main_prune_sample [OF assms(1)] show ?thesis by (simp add: main_def)
qed

lemma length_login_line: "length login_line = 63"
  by (simp add: login_line_def login_doc_def marker_def)

lemma read_lines_login: "read_lines [] login_line = [login_line]"
  by (simp add: login_line_def login_doc_def marker_def dq_def LF_def CR_def)

lemma read_lines_login_twice:
  "read_lines [] (login_line @ login_line) = [login_line, login_line]"
  by (simp add: login_line_def login_doc_def marker_def dq_def LF_def CR_def)

lemma extract_sample_ip:
  "extract_login_ip (json_loads sample_lib) login_line = Inr (Some sample_ip)"
  using extract_login_ip_sample by (simp add: sample_ip_def)

lemma create_rule_created_response:
  "create_rule (py_str sample_lib) created_response = Some ''r2''"
  by (simp add: create_rule_def create_rule_try_def created_response_def sample_lib_def)

lemma accept_all_put: "accept_all tr (PutRule ip) = created_response"
  by (simp add: accept_all_def created_response_def)

lemma sample_ip_nonempty: "sample_ip \<noteq> []"
  by (simp add: sample_ip_def)

text \<open>A login line when the IP has a record: nothing but the offset changes.\<close>

lemma scan_step_login_present:
  "scan_step sample_lib e login_line (tr, pos, [(sample_ip, info)]) =
     Inr (tr, pos + 63, [(sample_ip, info)])"
  using extract_sample_ip
  by (simp add: scan_step_def Let_def length_login_line sample_ip_nonempty)

text \<open>A login line when there is no record and the service accepts.\<close>

lemma scan_step_login_accepted:
  "scan_step sample_lib (sample_env st bytes accept_all) login_line (tr, pos, []) =
     Inr (tr @ [(PutRule sample_ip, created_response)], pos + 63,
          [(sample_ip, new_rule ''r2''
              (isoformat sample_lib (1704088802000000 + 2000000 * int (length tr))))])"
  using extract_sample_ip create_rule_created_response
  by (simp add: scan_step_def Let_def length_login_line sample_ip_nonempty api_sample
      accept_all_put clock_sample timedelta_minutes_def TTL_MINUTES_def)

lemma isoformat_sample:
  "isoformat sample_lib 1704088802000000 = ''2024-01-01T06:00:02+00:00''"
  "isoformat sample_lib 1704088804000000 = ''2024-01-01T06:00:04+00:00''"
  by (simp_all add: sample_lib_def)

lemma expiry_of_sample:
  "expiry_of sample_lib expired_rule = Inr (Aware 1704063600000000)"
  "expiry_of sample_lib live_rule = Inr (Aware 1704088800000000)"
  by (simp_all add: expiry_of_def expired_rule_def live_rule_def new_rule_def sample_lib_def)

lemma rule_id_sample:
  "subscript expired_rule ''rule_id'' = Inr (JStr ''r1'')"
  "subscript live_rule ''rule_id'' = Inr (JStr ''r1'')"
  by (simp_all add: expired_rule_def live_rule_def new_rule_def)

lemma prune_step_eval:
  assumes "expiry_of l info = Inr (Aware t)" "subscript info ''rule_id'' = Inr rule_id"
  shows "prune_step l e now (ip, info) (tr, updated) =
     (if t \<le> now then
        (case delete_rule (api e tr (DeleteRule rule_id)) of
           Inl x \<Rightarrow> Inl x
         | Inr success \<Rightarrow>
             Inr (tr @ [(DeleteRule rule_id, api e tr (DeleteRule rule_id))],
                  if success then updated else AList.update ip info updated))
      else Inr (tr, AList.update ip info updated))"
  using assms
  by (auto simp: prune_step_def expiry_of_def Let_def split: sum.splits)

lemma prune_live:
  "prune sample_lib e 1704067200000000 [(sample_ip, live_rule)] ([], []) =
     Inr ([], [(sample_ip, live_rule)])"
  by (simp add: prune_def prune_step_eval [OF expiry_of_sample(2) rule_id_sample(2)])

lemma prune_expired_accepted:
  "prune sample_lib (sample_env st bytes accept_all) 1704067200000000
     [(sample_ip, expired_rule)] ([], []) =
     Inr ([(DeleteRule (JStr ''r1''), Response 200 None)], [])"
  by (simp add: prune_def prune_step_eval [OF expiry_of_sample(1) rule_id_sample(1)]
      api_sample accept_all_def delete_rule_def)

lemma prune_expired_refused:
  "prune sample_lib (sample_env st bytes refuse_all) 1704067200000000
     [(sample_ip, expired_rule)] ([], []) =
     Inr ([(DeleteRule (JStr ''r1''), Response 500 None)], [(sample_ip, expired_rule)])"
  by (simp add: prune_def prune_step_eval [OF expiry_of_sample(1) rule_id_sample(1)]
      api_sample refuse_all_def delete_rule_def)

text \<open>
  The same login twice in one run, no rule before: one create-rule call, one record,
  and the offset after both lines.
\<close>

lemma main_login_twice:
  "main sample_lib (sample_env (state_with 0 []) (login_line @ login_line) accept_all) =
     Inr ([(PutRule sample_ip, created_response)],
          state_with 126 [(sample_ip, new_rule ''r2'' ''2024-01-01T06:00:02+00:00'')])"
  by (rule main_sample [where tr = "[]" and pruned = "[]"])
    (simp_all add: prune_def read_lines_login_twice scan_def scan_step_login_accepted
      scan_step_login_present isoformat_sample)

text \<open>A login from an IP whose rule has not expired.\<close>

lemma main_login_live:
  "main sample_lib (sample_env (state_with 0 [(sample_ip, live_rule)]) login_line refuse_all) =
     Inr ([], state_with 63 [(sample_ip, live_rule)])"
  by (rule main_sample [where tr = "[]" and pruned = "[(sample_ip, live_rule)]"])
    (simp_all add: prune_live read_lines_login scan_def scan_step_login_present)

text \<open>A login from an IP whose rule has expired, while the service refuses the deletion.\<close>

lemma main_login_expired_refused:
  "main sample_lib (sample_env (state_with 0 [(sample_ip, expired_rule)]) login_line refuse_all) =
     Inr ([(DeleteRule (JStr ''r1''), Response 500 None)],
          state_with 63 [(sample_ip, expired_rule)])"
  by (rule main_sample [where tr = "[(DeleteRule (JStr ''r1''), Response 500 None)]"
        and pruned = "[(sample_ip, expired_rule)]"])
    (simp_all add: prune_expired_refused read_lines_login scan_def scan_step_login_present)

text \<open>The same, while the service accepts the deletion and the new rule.\<close>

lemma main_login_expired_accepted:
  "main sample_lib (sample_env (state_with 0 [(sample_ip, expired_rule)]) login_line accept_all) =
     Inr ([(DeleteRule (JStr ''r1''), Response 200 None), (PutRule sample_ip, created_response)],
          state_with 63 [(sample_ip, new_rule ''r2'' ''2024-01-01T06:00:04+00:00'')])"
  by (rule main_sample [where tr = "[(DeleteRule (JStr ''r1''), Response 200 None)]"
        and pruned = "[]"])
    (simp_all add: prune_expired_accepted read_lines_login scan_def scan_step_login_accepted
      isoformat_sample)

lemma saved_rules_state_with: "saved_rules (state_with offset rules) = rules"
  by (simp add: saved_rules_def state_with_def)

section \<open>Expiry pruning\<close>

text \<open>
  C2, as stated, fails: a rule that expired and whose deletion succeeds is dropped
  from the rule set, but a login from the same IP among the lines scanned in the same
  run creates a new rule, so the IP is in the saved rule set. Here the state holds an
  expired rule for \<^verbatim>\<open>203.0.113.5\<close>, the service answers the deletion with 200, and the
  log holds one login from that IP.
\<close>

theorem expired_rule_readmitted:
  "main sample_lib (sample_env (state_with 0 [(sample_ip, expired_rule)]) login_line accept_all) =
     Inr ([(DeleteRule (JStr ''r1''), Response 200 None), (PutRule sample_ip, created_response)],
          state_with 63 [(sample_ip, new_rule ''r2'' ''2024-01-01T06:00:04+00:00'')]) \<and>
   delete_rule (Response 200 None) = Inr True \<and>
   sample_ip \<in> fst ` set (saved_rules
     (state_with 63 [(sample_ip, new_rule ''r2'' ''2024-01-01T06:00:04+00:00'')]))"
  by (simp add: main_login_expired_accepted delete_rule_def saved_rules_state_with)

text \<open>
  C2, amended: in a run that completes, for every record of the loaded rules (a
  dictionary, so its keys are distinct): its expiry and rule identifier are readable;
  all the delete-rule calls of the run come before all its create-rule calls; if the
  record's expiry is at or before \<open>now\<close>, the clock as read once at the start, then a
  delete-rule call for its rule identifier is among the calls of pruning, and if that
  call succeeds the record is not in the rule set that scanning starts with, so that
  the IP is in the saved rule set only if a create-rule call for it succeeded during
  scanning, while if it fails with a status the record is in the saved rule set as it
  was loaded; a record whose expiry is after \<open>now\<close> is in the saved rule set as it was
  loaded.
\<close>

theorem expiry_pruning:
  assumes load: "main_load e = Inr (state, last_position, JObj (pre @ (ip, info) # post))"
    and dist: "distinct (map fst (pre @ (ip, info) # post))"
    and run: "main l e = Inr (tr1, saved)"
  shows "\<exists>t rule_id tr0 updated trp pruned new.
      expiry_of l info = Inr (Aware t) \<and> subscript info ''rule_id'' = Inr rule_id \<and>
      prune l e (clock e []) pre ([], []) = Inr (tr0, updated) \<and>
      main_prune l e = Inr (state, last_position, trp, pruned) \<and>
      tr1 = trp @ new \<and> list_all is_delete trp \<and> list_all (\<lambda>ev. \<not> is_delete ev) new \<and>
      (if t \<le> clock e [] then
         (DeleteRule rule_id, api e tr0 (DeleteRule rule_id)) \<in> set trp \<and>
         (case delete_rule (api e tr0 (DeleteRule rule_id)) of
            Inl x \<Rightarrow> False
          | Inr success \<Rightarrow>
              if success then
                map_of pruned ip = None \<and>
                (map_of (saved_rules saved) ip = None \<or>
                 list_ex (\<lambda>ev. put_for ip ev \<and> created l (snd ev)) new)
              else map_of (saved_rules saved) ip = Some info)
       else map_of (saved_rules saved) ip = Some info)"
proof -
  from main_prune_Inr [OF load run] obtain trp pruned where
    p: "prune l e (clock e []) (pre @ (ip, info) # post) ([], []) = Inr (trp, pruned)" and
    mp: "main_prune l e = Inr (state, last_position, trp, pruned)" by blast
  from main_scan_Inr [OF main_Inr [OF run mp]] obtain ls start pos2 where
    sc: "scan l e ls (trp, start, pruned) = Inr (tr1, pos2, saved_rules saved)" by blast
  from scan_only_puts [OF sc] obtain new where
    new: "tr1 = trp @ new" "list_all (\<lambda>ev. \<not> is_delete ev) new" by blast
  have kept: "map_of (saved_rules saved) ip = Some info" if "map_of pruned ip = Some info"
  proof -
    from that have "ip \<in> fst ` set pruned" by (metis map_of_eq_None_iff option.distinct(1))
    from scan_present [OF sc this] that show ?thesis by auto
  qed
  have fresh: "map_of (saved_rules saved) ip = None \<or>
      list_ex (\<lambda>ev. put_for ip ev \<and> created l (snd ev)) new" if none: "map_of pruned ip = None"
  proof (cases "map_of (saved_rules saved) ip")
    case None
    then show ?thesis by simp
  next
    case (Some info')
    with none have "map_of pruned ip \<noteq> Some info'" by simp
    from scan_new_records [OF sc Some this] obtain mid result rule_id after where
      h: "tr1 = trp @ mid @ (PutRule ip, result) # after"
        "create_rule (py_str l) result = Some rule_id" "rule_id \<noteq> []" by blast
    from h(1) new(1) have "new = mid @ (PutRule ip, result) # after" by simp
    moreover from h(2,3) have "put_for ip (PutRule ip, result) \<and> created l (snd (PutRule ip, result))"
      by (simp add: put_for_def created_def)
    ultimately show ?thesis by (auto simp: list_ex_iff)
  qed
  from prune_record [OF p dist] obtain t rule_id tr0 updated where
    r: "expiry_of l info = Inr (Aware t)" "subscript info ''rule_id'' = Inr rule_id"
      "prune l e (clock e []) pre ([], []) = Inr (tr0, updated)"
      "list_all is_delete trp"
      "if t \<le> clock e [] then
         (DeleteRule rule_id, api e tr0 (DeleteRule rule_id)) \<in> set trp \<and>
         (\<exists>b. delete_rule (api e tr0 (DeleteRule rule_id)) = Inr b \<and>
            map_of pruned ip = (if b then None else Some info))
       else map_of pruned ip = Some info"
    by blast
  have "if t \<le> clock e [] then
         (DeleteRule rule_id, api e tr0 (DeleteRule rule_id)) \<in> set trp \<and>
         (case delete_rule (api e tr0 (DeleteRule rule_id)) of
            Inl x \<Rightarrow> False
          | Inr success \<Rightarrow>
              if success then
                map_of pruned ip = None \<and>
                (map_of (saved_rules saved) ip = None \<or>
                 list_ex (\<lambda>ev. put_for ip ev \<and> created l (snd ev)) new)
              else map_of (saved_rules saved) ip = Some info)
       else map_of (saved_rules saved) ip = Some info"
  proof (cases "t \<le> clock e []")
    case True
    with r(5) obtain b where
      b: "(DeleteRule rule_id, api e tr0 (DeleteRule rule_id)) \<in> set trp"
        "delete_rule (api e tr0 (DeleteRule rule_id)) = Inr b"
        "map_of pruned ip = (if b then None else Some info)" by auto
    show ?thesis
    proof (cases b)
      case True
      with b(3) fresh have "map_of pruned ip = None \<and>
                (map_of (saved_rules saved) ip = None \<or>
                 list_ex (\<lambda>ev. put_for ip ev \<and> created l (snd ev)) new)" by simp
      with \<open>t \<le> clock e []\<close> b(1,2) True show ?thesis by simp
    next
      case False
      with b(3) kept have "map_of (saved_rules saved) ip = Some info" by simp
      with \<open>t \<le> clock e []\<close> b(1,2) False show ?thesis by simp
    qed
  next
    case False
    with r(5) kept show ?thesis by simp
  qed
  with r(1-4) mp new show ?thesis by blast
qed

theorem expiry_pruning_witness:
  "main_load (sample_env (state_with 0 [(sample_ip, expired_rule)]) login_line refuse_all) =
     Inr (state_with 0 [(sample_ip, expired_rule)], JNum 0, JObj ([] @ (sample_ip, expired_rule) # [])) \<and>
   distinct (map fst ([] @ (sample_ip, expired_rule) # [])) \<and>
   main sample_lib (sample_env (state_with 0 [(sample_ip, expired_rule)]) login_line refuse_all) =
     Inr ([(DeleteRule (JStr ''r1''), Response 500 None)],
          state_with 63 [(sample_ip, expired_rule)]) \<and>
   (DeleteRule (JStr ''r1''), Response 500 None)
     \<in> set [(DeleteRule (JStr ''r1''), Response 500 None)] \<and>
   map_of (saved_rules (state_with 63 [(sample_ip, expired_rule)])) sample_ip = Some expired_rule"
proof -
  let ?e = "sample_env (state_with 0 [(sample_ip, expired_rule)]) login_line refuse_all"
  let ?saved = "state_with 63 [(sample_ip, expired_rule)]"
  have h1: "main_load ?e =
     Inr (state_with 0 [(sample_ip, expired_rule)], JNum 0, JObj ([] @ (sample_ip, expired_rule) # []))"
    by (simp add: main_load_state_with)
  have h2: "distinct (map fst ([] @ (sample_ip, expired_rule) # []))" by simp
  note h3 = main_login_expired_refused
  from expiry_pruning [OF h1 h2 h3]
  have "map_of (saved_rules ?saved) sample_ip = Some expired_rule"
    by (auto simp: expiry_of_sample prune_def clock_sample api_sample refuse_all_def
        delete_rule_def)
  with h1 h2 h3 show ?thesis by simp
qed

text \<open>
  A run in which the deletion of an expired rule times out does not complete:
  \<^verbatim>\<open>delete_rule\<close> lets the exception through, and nothing is saved.
\<close>

lemma main_delete_time_out:
  "main sample_lib (sample_env (state_with 0 [(sample_ip, expired_rule)]) login_line time_out) =
     Inl RequestException"
proof -
  have "prune sample_lib (sample_env (state_with 0 [(sample_ip, expired_rule)]) login_line time_out)
      1704067200000000 [(sample_ip, expired_rule)] ([], []) = Inl RequestException"
    by (simp add: prune_def prune_step_eval [OF expiry_of_sample(1) rule_id_sample(1)]
        api_sample time_out_def delete_rule_def)
  then show ?thesis
    by (simp add: main_def main_prune_def main_load_state_with clock_sample)
qed

section \<open>Offsets\<close>

lemma main_load_no_rotation:
  assumes "load_state (state_file e) = Inr state0"
    and "dict_get state0 ''last_position'' (JNum 0) = Inr (JNum offset)"
    and "log_size e = Some current_size"
    and "\<not> int current_size < offset"
    and "main_load e = Inr r"
  shows "\<exists>rules. r = (state0, JNum offset, rules)"
  using assms by (auto simp: main_load_def split: sum.splits)

text \<open>
  C3: in a run that detects no rotation (the size of the log is not below the offset
  of the loaded state), the offset that is saved is the loaded offset plus the sum of
  the lengths in bytes of the lines that the loop read; and, the log being
  append-only (it has not shrunk between the size check and the scan), that offset is
  at most the number of bytes of the log as scanned, hence at most its size at the end
  of the run.
\<close>

theorem offset_accounting:
  assumes "load_state (state_file e) = Inr state0"
    and "dict_get state0 ''last_position'' (JNum 0) = Inr (JNum offset)"
    and "log_size e = Some current_size"
    and "\<not> int current_size < offset"
    and "log_bytes e = Some bytes"
    and "current_size \<le> length bytes"
    and "main l e = Inr (tr1, saved)"
  shows "saved_offset saved =
      JNum (offset + (\<Sum>line\<leftarrow>read_lines [] (drop (nat offset) bytes). int (length line))) \<and>
    offset + (\<Sum>line\<leftarrow>read_lines [] (drop (nat offset) bytes). int (length line))
      \<le> int (length bytes)"
proof -
  let ?lines = "read_lines [] (drop (nat offset) bytes)"
  from main_Inr_prune [OF assms(7)] obtain state lp rules trp pruned where
    m: "main_load e = Inr (state, lp, rules)"
      "main_scan l e (state, lp, trp, pruned) = Inr (tr1, saved)" by blast
  from main_load_no_rotation [OF assms(1-4) m(1)] have lp: "lp = JNum offset" by simp
  from main_scan_Inr [OF m(2)] assms(5) lp obtain pos' act' where
    s: "0 \<le> offset" "scan l e ?lines (trp, offset, pruned) = Inr (tr1, pos', act')"
      "saved_offset saved = (if ?lines = [] then JNum offset else JNum pos')"
    by auto
  from scan_position [OF s(2)] have pos': "pos' = offset + (\<Sum>line\<leftarrow>?lines. int (length line))" .
  with s(3) have a: "saved_offset saved = JNum (offset + (\<Sum>line\<leftarrow>?lines. int (length line)))"
    by (cases "?lines = []") simp_all
  from read_lines_length [of "[]" "drop (nat offset) bytes"]
  have "(\<Sum>line\<leftarrow>?lines. length line) \<le> length bytes - nat offset" by simp
  moreover from assms(4,6) s(1) have "nat offset \<le> length bytes" by linarith
  ultimately have "offset + int (\<Sum>line\<leftarrow>?lines. length line) \<le> int (length bytes)"
    using s(1) by linarith
  with a show ?thesis by (simp add: sum_int_length)
qed

theorem offset_accounting_witness:
  "load_state (state_file (sample_env (state_with 0 []) (login_line @ login_line) accept_all))
     = Inr (state_with 0 []) \<and>
   dict_get (state_with 0 []) ''last_position'' (JNum 0) = Inr (JNum 0) \<and>
   log_size (sample_env (state_with 0 []) (login_line @ login_line) accept_all) = Some 126 \<and>
   \<not> int 126 < 0 \<and>
   log_bytes (sample_env (state_with 0 []) (login_line @ login_line) accept_all)
     = Some (login_line @ login_line) \<and>
   126 \<le> length (login_line @ login_line) \<and>
   main sample_lib (sample_env (state_with 0 []) (login_line @ login_line) accept_all) =
     Inr ([(PutRule sample_ip, created_response)],
          state_with 126 [(sample_ip, new_rule ''r2'' ''2024-01-01T06:00:02+00:00'')]) \<and>
   saved_offset (state_with 126 [(sample_ip, new_rule ''r2'' ''2024-01-01T06:00:02+00:00'')])
     = JNum (0 + (63 + 63)) \<and>
   (0::int) + (63 + 63) \<le> int (length (login_line @ login_line))"
proof -
  let ?e = "sample_env (state_with 0 []) (login_line @ login_line) accept_all"
  have h1: "load_state (state_file ?e) = Inr (state_with 0 [])" by (rule load_state_with)
  have h2: "dict_get (state_with 0 []) ''last_position'' (JNum 0) = Inr (JNum 0)"
    by (simp add: state_with_def)
  have h3: "log_size ?e = Some 126" by (simp add: sample_env_def length_login_line)
  have h4: "\<not> int 126 < 0" by simp
  have h5: "log_bytes ?e = Some (login_line @ login_line)" by (rule log_bytes_sample)
  have h6: "126 \<le> length (login_line @ login_line)" by (simp add: length_login_line)
  note h7 = main_login_twice
  from offset_accounting [OF h1 h2 h3 h4 h5 h6 h7]
  have "saved_offset (state_with 126 [(sample_ip, new_rule ''r2'' ''2024-01-01T06:00:02+00:00'')])
     = JNum (0 + (63 + 63)) \<and>
   (0::int) + (63 + 63) \<le> int (length (login_line @ login_line))"
    by (simp add: read_lines_login_twice length_login_line)
  with h1 h2 h3 h5 h6 h7 show ?thesis by simp
qed

lemma main_load_rotation:
  assumes "load_state (state_file e) = Inr state0"
    and "dict_get state0 ''last_position'' (JNum 0) = Inr (JNum offset)"
    and "log_size e = Some current_size"
    and "int current_size < offset"
    and "main_load e = Inr (state, lp, rules)"
  shows "lp = JNum 0"
  using assms by (auto simp: main_load_def split: sum.splits)

text \<open>
  What holds of rotation: when the size of the log is below the loaded offset, the
  scan starts at byte 0, and if the log has no carriage return the saved offset is the
  size of the log.
\<close>

lemma rotation_recovery_without_cr:
  assumes "load_state (state_file e) = Inr state0"
    and "dict_get state0 ''last_position'' (JNum 0) = Inr (JNum offset)"
    and "log_size e = Some current_size"
    and "int current_size < offset"
    and "log_bytes e = Some bytes"
    and "CR \<notin> set bytes"
    and "main l e = Inr (tr1, saved)"
  shows "saved_offset saved = JNum (int (length bytes))"
proof -
  let ?lines = "read_lines [] bytes"
  from main_Inr_prune [OF assms(7)] obtain state lp rules trp pruned where
    m: "main_load e = Inr (state, lp, rules)"
      "main_scan l e (state, lp, trp, pruned) = Inr (tr1, saved)" by blast
  from main_load_rotation [OF assms(1-4) m(1)] have lp: "lp = JNum 0" .
  from main_scan_Inr [OF m(2)] assms(5) lp obtain pos' act' where
    s: "scan l e ?lines (trp, 0, pruned) = Inr (tr1, pos', act')"
      "saved_offset saved = (if ?lines = [] then JNum 0 else JNum pos')"
    by auto
  from scan_position [OF s(1)] have "pos' = (\<Sum>line\<leftarrow>?lines. int (length line))" by simp
  with read_lines_length_no_cr [OF assms(6), of "[]"]
  have pos': "pos' = int (length bytes)" by (simp add: sum_int_length)
  show ?thesis
  proof (cases "?lines = []")
    case True
    with read_lines_length_no_cr [OF assms(6), of "[]"] have "length bytes = 0" by simp
    with s(2) True show ?thesis by simp
  next
    case False
    with s(2) pos' show ?thesis by simp
  qed
qed

text \<open>
  C4 does not hold of the code: the log is read in text mode, where \<^verbatim>\<open>\r\n\<close> reaches
  the program as \<^verbatim>\<open>\n\<close>, so \<^verbatim>\<open>len(line.encode("utf-8"))\<close> is one less than the
  bytes that the line takes in the file. With a saved offset of 10 and a rotated log of
  the three bytes \<^verbatim>\<open>x\r\n\<close>, the run starts at 0, reads the whole log and saves the
  offset 2, not the size 3.
\<close>

theorem rotation_offset_crlf:
  "main sample_lib (sample_env (state_with 10 []) crlf_log refuse_all) =
     Inr ([], state_with 2 []) \<and> length crlf_log = 3"
proof -
  let ?e = "sample_env (state_with 10 []) crlf_log refuse_all"
  have p: "main_prune sample_lib ?e = Inr (state_with 0 [], JNum 0, [], [])"
    by (simp add: main_prune_def main_load_state_with prune_def crlf_log_def)
  have r: "read_lines [] crlf_log = [[CHR ''x'', LF]]"
    by (simp add: crlf_log_def CR_def LF_def)
  have x: "extract_login_ip (json_loads sample_lib) [CHR ''x'', LF] = Inr None"
    by (simp add: extract_login_ip_def marker_def LF_def)
  have sc: "scan sample_lib ?e (read_lines [] (drop (nat 0) crlf_log)) ([], 0, []) = Inr ([], 2, [])"
    by (simp add: r scan_def scan_step_def x)
  from main_scan_eval [OF log_bytes_sample _ sc, of "[(''last_position'', JNum 0), (''rules'', JObj [])]"]
  have "main_scan sample_lib ?e (state_with 0 [], JNum 0, [], []) = Inr ([], state_with 2 [])"
    by (simp add: r state_with_def)
  with p show ?thesis by (simp add: main_def crlf_log_def)
qed

section \<open>The loop theorems on the sample runs\<close>

theorem create_rule_once_witness:
  "scan sample_lib (sample_env (state_with 0 []) (login_line @ login_line) accept_all) [login_line]
     ([(PutRule sample_ip, created_response)], 63, [(sample_ip, live_rule)]) =
     Inr ([(PutRule sample_ip, created_response)] @ [], 126, [(sample_ip, live_rule)]) \<and>
   sample_ip \<in> fst ` set [(sample_ip, live_rule)] \<and>
   \<not> list_ex (put_for sample_ip) [] \<and>
   main_prune sample_lib (sample_env (state_with 0 []) (login_line @ login_line) accept_all) =
     Inr (state_with 0 [], JNum 0, [], []) \<and>
   main sample_lib (sample_env (state_with 0 []) (login_line @ login_line) accept_all) =
     Inr ([(PutRule sample_ip, created_response)],
          state_with 126 [(sample_ip, new_rule ''r2'' ''2024-01-01T06:00:02+00:00'')]) \<and>
   creates_once sample_lib sample_ip [(PutRule sample_ip, created_response)]"
proof -
  let ?e = "sample_env (state_with 0 []) (login_line @ login_line) accept_all"
  have s: "scan sample_lib ?e [login_line]
     ([(PutRule sample_ip, created_response)], 63, [(sample_ip, live_rule)]) =
     Inr ([(PutRule sample_ip, created_response)] @ [], 126, [(sample_ip, live_rule)])"
    by (simp add: scan_def scan_step_login_present)
  have p: "main_prune sample_lib ?e = Inr (state_with 0 [], JNum 0, [], [])"
    by (rule main_prune_sample) (simp add: prune_def)
  note m = main_login_twice
  from create_rule_once [of sample_lib ?e "[login_line]" "[(PutRule sample_ip, created_response)]"
      63 "[(sample_ip, live_rule)]" "[(PutRule sample_ip, created_response)] @ []" 126
      "[(sample_ip, live_rule)]" sample_ip "state_with 0 []" "JNum 0" "[]" "[]"
      "[(PutRule sample_ip, created_response)]"
      "state_with 126 [(sample_ip, new_rule ''r2'' ''2024-01-01T06:00:02+00:00'')]"] s p m
  have "creates_once sample_lib sample_ip [(PutRule sample_ip, created_response)]"
    by auto
  with s p m show ?thesis by simp
qed

theorem repeated_login_keeps_record_witness:
  "extract_login_ip (json_loads sample_lib) login_line = Inr (Some sample_ip) \<and>
   sample_ip \<in> fst ` set [(sample_ip, live_rule)] \<and>
   scan_step sample_lib (sample_env (state_with 0 [(sample_ip, live_rule)]) login_line refuse_all)
     login_line ([], 0, [(sample_ip, live_rule)]) =
     Inr ([], 0 + int (length login_line), [(sample_ip, live_rule)]) \<and>
   main_prune sample_lib (sample_env (state_with 0 [(sample_ip, live_rule)]) login_line refuse_all) =
     Inr (state_with 0 [(sample_ip, live_rule)], JNum 0, [], [(sample_ip, live_rule)]) \<and>
   main sample_lib (sample_env (state_with 0 [(sample_ip, live_rule)]) login_line refuse_all) =
     Inr ([], state_with 63 [(sample_ip, live_rule)]) \<and>
   map_of (saved_rules (state_with 63 [(sample_ip, live_rule)])) sample_ip
     = map_of [(sample_ip, live_rule)] sample_ip"
proof -
  let ?e = "sample_env (state_with 0 [(sample_ip, live_rule)]) login_line refuse_all"
  note x = extract_sample_ip
  have k: "sample_ip \<in> fst ` set [(sample_ip, live_rule)]" by simp
  have p: "main_prune sample_lib ?e =
     Inr (state_with 0 [(sample_ip, live_rule)], JNum 0, [], [(sample_ip, live_rule)])"
    by (rule main_prune_sample) (rule prune_live)
  note m = main_login_live
  note t = repeated_login_keeps_record [of sample_lib login_line sample_ip
      "[(sample_ip, live_rule)]" ?e "[]" 0 "[]" "[]" 0 "[]"
      "state_with 0 [(sample_ip, live_rule)]" "JNum 0" "[]" "[(sample_ip, live_rule)]" "[]"
      "state_with 63 [(sample_ip, live_rule)]"]
  from t x k have "scan_step sample_lib ?e login_line ([], 0, [(sample_ip, live_rule)]) =
     Inr ([], 0 + int (length login_line), [(sample_ip, live_rule)])"
    by blast
  moreover from t p m k have "map_of (saved_rules (state_with 63 [(sample_ip, live_rule)])) sample_ip
     = map_of [(sample_ip, live_rule)] sample_ip"
    by blast
  ultimately show ?thesis using x k p m by simp
qed

theorem fresh_expiry_witness:
  "extract_login_ip (json_loads sample_lib) login_line = Inr (Some sample_ip) \<and>
   sample_ip \<notin> fst ` set [] \<and>
   create_rule (py_str sample_lib)
     (api (sample_env (state_with 0 []) (login_line @ login_line) accept_all) []
        (PutRule sample_ip)) = Some ''r2'' \<and>
   ''r2'' \<noteq> [] \<and>
   (\<exists>t' p' rules' info.
      scan_step sample_lib (sample_env (state_with 0 []) (login_line @ login_line) accept_all)
        login_line ([], 0, []) = Inr (t', p', rules') \<and>
      t' = [] @ [(PutRule sample_ip,
                  api (sample_env (state_with 0 []) (login_line @ login_line) accept_all) []
                    (PutRule sample_ip))] \<and>
      map_of rules' sample_ip = Some info \<and>
      subscript info ''rule_id'' = Inr (JStr ''r2'') \<and>
      subscript info ''expires_at'' =
        Inr (JStr (isoformat sample_lib
          (clock (sample_env (state_with 0 []) (login_line @ login_line) accept_all) t'
             + 21600000000)))) \<and>
   main_prune sample_lib (sample_env (state_with 0 []) (login_line @ login_line) accept_all) =
     Inr (state_with 0 [], JNum 0, [], []) \<and>
   main sample_lib (sample_env (state_with 0 []) (login_line @ login_line) accept_all) =
     Inr ([(PutRule sample_ip, created_response)],
          state_with 126 [(sample_ip, new_rule ''r2'' ''2024-01-01T06:00:02+00:00'')]) \<and>
   map_of (saved_rules (state_with 126 [(sample_ip, new_rule ''r2'' ''2024-01-01T06:00:02+00:00'')]))
     sample_ip = Some (new_rule ''r2'' ''2024-01-01T06:00:02+00:00'') \<and>
   map_of [] sample_ip \<noteq> Some (new_rule ''r2'' ''2024-01-01T06:00:02+00:00'') \<and>
   (\<exists>mid result rule_id after.
      [(PutRule sample_ip, created_response)] = [] @ mid @ (PutRule sample_ip, result) # after \<and>
      create_rule (py_str sample_lib) result = Some rule_id \<and> rule_id \<noteq> [] \<and>
      subscript (new_rule ''r2'' ''2024-01-01T06:00:02+00:00'') ''rule_id'' = Inr (JStr rule_id) \<and>
      subscript (new_rule ''r2'' ''2024-01-01T06:00:02+00:00'') ''expires_at'' =
        Inr (JStr (isoformat sample_lib
           (clock (sample_env (state_with 0 []) (login_line @ login_line) accept_all)
              ([] @ mid @ [(PutRule sample_ip, result)])
            + 21600000000)))) \<and>
   subscript (new_rule ''r2'' ''2024-01-01T06:00:02+00:00'') ''expires_at'' =
     Inr (JStr ''2024-01-01T06:00:02+00:00'') \<and>
   isoformat sample_lib
     (clock (sample_env (state_with 0 []) (login_line @ login_line) accept_all) []
        + 21600000000) = ''2024-01-01T06:00:00+00:00''"
proof -
  let ?e = "sample_env (state_with 0 []) (login_line @ login_line) accept_all"
  let ?info = "new_rule ''r2'' ''2024-01-01T06:00:02+00:00''"
  have p: "main_prune sample_lib ?e = Inr (state_with 0 [], JNum 0, [], [])"
    by (rule main_prune_sample) (simp add: prune_def)
  note m = main_login_twice
  have a: "map_of (saved_rules (state_with 126 [(sample_ip, ?info)])) sample_ip = Some ?info"
    by (simp add: saved_rules_state_with)
  have b: "map_of [] sample_ip \<noteq> Some ?info" by simp
  have c: "isoformat sample_lib (clock ?e [] + 21600000000) = ''2024-01-01T06:00:00+00:00''"
    by (simp add: clock_sample sample_lib_def)
  have f: "subscript ?info ''expires_at'' = Inr (JStr ''2024-01-01T06:00:02+00:00'')"
    by (rule new_rule_fields)
  note x = extract_sample_ip
  have k: "sample_ip \<notin> fst ` set []" by simp
  have r: "create_rule (py_str sample_lib) (api ?e [] (PutRule sample_ip)) = Some ''r2''"
    by (simp add: api_sample accept_all_put create_rule_created_response)
  have n: "''r2'' \<noteq> []" by simp
  note t = fresh_expiry [of sample_lib login_line sample_ip "[]" ?e "[]" "''r2''" 0
      "[]" "[]" 0 "[]" "[]" 0 "[]" ?info
      "state_with 0 []" "JNum 0" "[]" "[]" "[(PutRule sample_ip, created_response)]"
      "state_with 126 [(sample_ip, ?info)]"]
  from t x k r n have st: "\<exists>t' p' rules' info.
      scan_step sample_lib ?e login_line ([], 0, []) = Inr (t', p', rules') \<and>
      t' = [] @ [(PutRule sample_ip, api ?e [] (PutRule sample_ip))] \<and>
      map_of rules' sample_ip = Some info \<and>
      subscript info ''rule_id'' = Inr (JStr ''r2'') \<and>
      subscript info ''expires_at'' =
        Inr (JStr (isoformat sample_lib (clock ?e t' + 21600000000)))"
    by blast
  from t p m a b
  have lp: "\<exists>mid result rule_id after.
      [(PutRule sample_ip, created_response)] = [] @ mid @ (PutRule sample_ip, result) # after \<and>
      create_rule (py_str sample_lib) result = Some rule_id \<and> rule_id \<noteq> [] \<and>
      subscript ?info ''rule_id'' = Inr (JStr rule_id) \<and>
      subscript ?info ''expires_at'' =
        Inr (JStr (isoformat sample_lib (clock ?e ([] @ mid @ [(PutRule sample_ip, result)])
            + 21600000000)))"
    by blast
  from x k r n st p m a b lp f c show ?thesis by blast
qed

end
